theory Spec2Isabelle
  imports Main
begin

section \<open>Python values, strings and exceptions\<close>

text \<open>
  The ingestion pipeline of \<^verbatim>\<open>cliftonroad/athena\<close> is embedded function by function.
  A Python \<^verbatim>\<open>dict\<close> is a map, a raised exception is the \<open>Inl\<close> branch of a sum, and
  a mutated object is passed in and returned. What the Python runtime, pandas, the clock
  and the relational store do is taken as a parameter of the model (the records
  \<open>runtime\<close> and \<open>environment\<close> and the store's \<open>accepts\<close>), so every theorem holds
  for every behaviour of these collaborators.
\<close>

text \<open>
  A cell value. A float, a date and a datetime are never inspected by the code embedded
  here, so each is kept as its canonical text (\<^verbatim>\<open>repr\<close>, \<^verbatim>\<open>isoformat\<close>).
\<close>

datatype pyval =
    PNone
  | PStr string
  | PInt int
  | PFloat string
  | PDate string
  | PDateTime string
  | PBool bool

type_synonym path = string

text \<open>A row as a \<^verbatim>\<open>dict\<close> from column name to value.\<close>

type_synonym db_row = "string \<rightharpoonup> pyval"

text \<open>
  The messages \<^verbatim>\<open>DataValidator.validate_data\<close> collects: the indices of the empty rows;
  a column and the rows whose value is not numeric; a column whose values do not parse
  as dates; a bound, a column and the rows whose value is longer than the bound.
\<close>

datatype violation =
    EmptyRows "nat list"
  | NonNumeric string "nat list"
  | InvalidDateFormat string
  | TooLong int string "nat list"

text \<open>
  The exceptions of the source, one constructor per \<^verbatim>\<open>raise\<close> site (and per failing
  call of a collaborator), with the values its message is formatted from. Where the
  source stores \<^verbatim>\<open>str(e)\<close> the model stores the exception itself.
\<close>

datatype error =
    NoCsvConfiguration string
  | NoColumnMappings string
  | RequiredFieldEmpty string nat
  | DataTypeConversionError string string
  | ConversionFailed string nat error
  | SchemaMismatch nat int
  | MissingRequiredColumn string nat
  | DataValidationFailed "violation list"
  | BatchFailed nat error
  | UnsupportedFileType string
  | FileNotFound path
  | StopIteration
  | KeyError string
  | IndexError
  | EmptySequence
  | RangeStepZero
  | NoSuchTable string
  | StoreRejected string
  | ReadFailed path
  | InvalidLiteral string

text \<open>
  \<^verbatim>\<open>str.lower()\<close> on the ASCII letters; every other character is left as it is. (No
  character outside ASCII lowers to one of the letters of \<^verbatim>\<open>true\<close>, \<^verbatim>\<open>yes\<close> or \<^verbatim>\<open>y\<close>.)
\<close>

definition lower_char :: "char \<Rightarrow> char" where
  "lower_char c =
     (case map_of (zip ''ABCDEFGHIJKLMNOPQRSTUVWXYZ'' ''abcdefghijklmnopqrstuvwxyz'') c of
        Some l \<Rightarrow> l
      | None \<Rightarrow> c)"

definition py_lower :: "string \<Rightarrow> string" where
  "py_lower s = map lower_char s"

text \<open>\<^verbatim>\<open>str.strip()\<close>: the ASCII whitespace of \<^verbatim>\<open>str.isspace\<close> is removed at both ends.\<close>

definition is_space :: "char \<Rightarrow> bool" where
  "is_space c = (c \<in> set [CHR '' '', CHR 0x09, CHR 0x0A, CHR 0x0B, CHR 0x0C, CHR 0x0D,
                            CHR 0x1C, CHR 0x1D, CHR 0x1E, CHR 0x1F])"

definition py_strip :: "string \<Rightarrow> string" where
  "py_strip s = rev (dropWhile is_space (rev (dropWhile is_space s)))"

text \<open>
  The parsers of the Python runtime that the source calls: \<^verbatim>\<open>int(value)\<close>,
  \<^verbatim>\<open>float(value)\<close>, \<^verbatim>\<open>datetime.strptime(value, '%Y-%m-%d').date()\<close> and
  \<^verbatim>\<open>datetime.strptime(value, '%Y-%m-%d %H:%M:%S')\<close>. \<open>None\<close> stands for the \<^verbatim>\<open>ValueError\<close>
  each raises on text it does not accept.
\<close>

record runtime =
  py_int :: "string \<Rightarrow> int option"
  py_float :: "string \<Rightarrow> string option"
  strptime_date :: "string \<Rightarrow> string option"
  strptime_datetime :: "string \<Rightarrow> string option"

section \<open>CSVHandler (app/core/csv\_file\_handler.py)\<close>

record column_mapping =
  column_index :: int
  db_column :: string
  data_type :: string
  required :: bool




text \<open>A file as \<^verbatim>\<open>csv.reader\<close> yields it: its rows, each a list of fields.\<close>

type_synonym content = "string list list"

type_synonym files = "path \<rightharpoonup> content"


text \<open>
  \<^verbatim>\<open>_convert_data_type(value, data_type)\<close>. The first test returns \<^verbatim>\<open>None\<close> for the empty
  string, whatever the type. The \<^verbatim>\<open>except\<close> clause turns the parser's exception into
  the \<^verbatim>\<open>ValueError\<close> "Data type conversion error".
\<close>

definition convert_data_type :: "runtime \<Rightarrow> string \<Rightarrow> string \<Rightarrow> error + pyval" where
  "convert_data_type rt v dtype =
     (if v = [] then Inr PNone
      else if py_lower dtype = ''string'' then Inr (PStr (py_strip v))
      else if py_lower dtype = ''integer'' then
        (case py_int rt v of
           Some n \<Rightarrow> Inr (PInt n)
         | None \<Rightarrow> Inl (DataTypeConversionError v dtype))
      else if py_lower dtype = ''float'' then
        (case py_float rt v of
           Some x \<Rightarrow> Inr (PFloat x)
         | None \<Rightarrow> Inl (DataTypeConversionError v dtype))
      else if py_lower dtype = ''date'' then
        (case strptime_date rt v of
           Some d \<Rightarrow> Inr (PDate d)
         | None \<Rightarrow> Inl (DataTypeConversionError v dtype))
      else if py_lower dtype = ''datetime'' then
        (case strptime_datetime rt v of
           Some d \<Rightarrow> Inr (PDateTime d)
         | None \<Rightarrow> Inl (DataTypeConversionError v dtype))
      else if py_lower dtype = ''boolean'' then
        Inr (PBool (py_lower v \<in> set [''true'', ''1'', ''yes'', ''y'']))
      else Inr (PStr (py_strip v)))"

text \<open>
  \<^verbatim>\<open>index_to_column\<close>: the dict comprehension over the mappings; of two mappings with
  one index the later one stays.
\<close>

definition index_to_column :: "column_mapping list \<Rightarrow> (int \<rightharpoonup> column_mapping)" where
  "index_to_column ms = map_of (rev (map (\<lambda>m. (column_index m, m)) ms))"

text \<open>
  The inner loop of \<^verbatim>\<open>process_csv_file\<close>,
  \<^verbatim>\<open>for col_idx, value in enumerate(row)\<close>: only the indices the row has are visited.
\<close>

fun process_fields ::
  "runtime \<Rightarrow> (int \<rightharpoonup> column_mapping) \<Rightarrow> nat \<Rightarrow> (nat \<times> string) list \<Rightarrow> db_row \<Rightarrow> error + db_row"
where
  "process_fields rt i2c row_num [] record = Inr record"
| "process_fields rt i2c row_num ((col_idx, v) # rest) record =
     (case i2c (int col_idx) of
        None \<Rightarrow> process_fields rt i2c row_num rest record
      | Some mapping \<Rightarrow>
          if required mapping \<and> py_strip v = [] then
            Inl (RequiredFieldEmpty (db_column mapping) row_num)
          else
            (case convert_data_type rt v (data_type mapping) of
               Inl e \<Rightarrow> Inl (ConversionFailed (db_column mapping) row_num e)
             | Inr converted \<Rightarrow>
                 process_fields rt i2c row_num rest (record(db_column mapping \<mapsto> converted))))"

text \<open>One row of the file: \<^verbatim>\<open>record = {}\<close>, then the loop over its fields.\<close>

definition process_row ::
  "runtime \<Rightarrow> column_mapping list \<Rightarrow> nat \<Rightarrow> string list \<Rightarrow> error + db_row" where
  "process_row rt ms row_num row =
     process_fields rt (index_to_column ms) row_num (List.enumerate 0 row) Map.empty"






section \<open>DatabaseHandler (app/core/db\_handler.py)\<close>

text \<open>
  What \<^verbatim>\<open>get_table_columns\<close> reports for one column: \<^verbatim>\<open>str(col['type'])\<close>,
  \<^verbatim>\<open>col.get('nullable', True)\<close> and \<^verbatim>\<open>col.get('default')\<close>.
\<close>

record col_info =
  col_type :: string
  nullable :: bool
  default_value :: "string option"

text \<open>The columns of a table, in the order the dict iterates them.\<close>

type_synonym table_schema = "(string \<times> col_info) list"

text \<open>
  The relational store. \<open>schemas\<close> is what the inspector reports (\<open>None\<close>: it raises),
  \<open>accepts\<close> says whether the store executes an insert of a batch into a table holding the
  given rows, \<open>contents\<close> are the committed rows of each table and \<open>sent\<close> lists every batch
  handed to \<^verbatim>\<open>session.execute\<close>, committed or not.
\<close>

record store =
  schemas :: "string \<rightharpoonup> table_schema"
  accepts :: "string \<Rightarrow> db_row list \<Rightarrow> db_row list \<Rightarrow> bool"
  contents :: "string \<Rightarrow> db_row list"
  sent :: "(string \<times> db_row list) list"

definition get_table_columns :: "store \<Rightarrow> string \<Rightarrow> error + table_schema" where
  "get_table_columns st table_name =
     (case schemas st table_name of
        None \<Rightarrow> Inl (NoSuchTable table_name)
      | Some columns \<Rightarrow> Inr columns)"

text \<open>
  The inner loop of \<^verbatim>\<open>validate_and_prepare_data\<close>,
  \<^verbatim>\<open>for col_name, col_info in columns.items()\<close>, for the record at index \<open>idx\<close>.
\<close>

fun prepare_record :: "table_schema \<Rightarrow> nat \<Rightarrow> db_row \<Rightarrow> db_row \<Rightarrow> error + db_row" where
  "prepare_record [] idx row prepared_record = Inr prepared_record"
| "prepare_record ((col_name, info) # columns) idx row prepared_record =
     (case row col_name of
        Some v \<Rightarrow> prepare_record columns idx row (prepared_record(col_name \<mapsto> v))
      | None \<Rightarrow>
          if default_value info \<noteq> None then prepare_record columns idx row prepared_record
          else if nullable info then
            prepare_record columns idx row (prepared_record(col_name \<mapsto> PNone))
          else Inl (MissingRequiredColumn col_name idx))"

text \<open>The outer loop, \<^verbatim>\<open>for idx, record in enumerate(data)\<close>.\<close>

fun prepare_records ::
  "table_schema \<Rightarrow> nat \<Rightarrow> db_row list \<Rightarrow> db_row list \<Rightarrow> error + db_row list" where
  "prepare_records columns idx [] prepared_data = Inr prepared_data"
| "prepare_records columns idx (row # rows) prepared_data =
     (case prepare_record columns idx row Map.empty of
        Inl e \<Rightarrow> Inl e
      | Inr prepared_record \<Rightarrow>
          prepare_records columns (Suc idx) rows (prepared_data @ [prepared_record]))"

definition validate_and_prepare_data :: "store \<Rightarrow> string \<Rightarrow> db_row list \<Rightarrow> error + db_row list" where
  "validate_and_prepare_data st table_name data =
     (if data = [] then Inr []
      else
        (case get_table_columns st table_name of
           Inl e \<Rightarrow> Inl e
         | Inr columns \<Rightarrow> prepare_records columns 0 data []))"

text \<open>
  The loop of \<^verbatim>\<open>insert_data\<close>, \<^verbatim>\<open>for i in range(0, total_records, batch_size)\<close>, inside one
  session: \<open>pending\<close> are the rows executed and flushed but not yet committed. A batch the
  store refuses raises, and the loop stops there.
\<close>

function execute_batches ::
  "string \<Rightarrow> nat \<Rightarrow> db_row list \<Rightarrow> nat \<Rightarrow> nat \<Rightarrow> db_row list \<Rightarrow> store \<Rightarrow>
   store \<times> (error + db_row list)"
where
  "execute_batches table_name batch_size prepared_data total_records i pending st =
     (if batch_size = 0 \<or> total_records \<le> i then (st, Inr pending)
      else
        (let batch = take batch_size (drop i prepared_data);
             st' = st\<lparr>sent := sent st @ [(table_name, batch)]\<rparr>
         in if accepts st table_name (contents st table_name @ pending) batch then
              execute_batches table_name batch_size prepared_data total_records
                (i + batch_size) (pending @ batch) st'
            else (st', Inl (StoreRejected table_name))))"
  by pat_completeness auto
termination
  by (relation "measure (\<lambda>(t, b, p, n, i, pe, s). n - i)") auto

declare execute_batches.simps [simp del]

text \<open>
  \<^verbatim>\<open>insert_data(table_name, data, batch_size)\<close>. The rows are reconciled with the schema
  before the session is opened. \<^verbatim>\<open>session_scope\<close> commits when the loop ends and rolls
  back when it raises: then the committed rows are the ones from before the call.
  \<^verbatim>\<open>range\<close> raises on a step of zero.
\<close>

definition insert_data :: "store \<Rightarrow> string \<Rightarrow> db_row list \<Rightarrow> nat \<Rightarrow> store \<times> (error + unit)" where
  "insert_data st table_name data batch_size =
     (if data = [] then (st, Inr ())
      else
        (case validate_and_prepare_data st table_name data of
           Inl e \<Rightarrow> (st, Inl e)
         | Inr prepared_data \<Rightarrow>
             if batch_size = 0 then (st, Inl RangeStepZero)
             else
               (case execute_batches table_name batch_size prepared_data (length data) 0 [] st of
                  (st', Inl e) \<Rightarrow> (st', Inl e)
                | (st', Inr pending) \<Rightarrow>
                    (st'\<lparr>contents := (contents st')(table_name := contents st' table_name @ pending)\<rparr>,
                     Inr ()))))"

section \<open>DatabaseHandler.load\_csv\_to\_table (app/core/csv\_db\_handler.py)\<close>



section \<open>Data frames\<close>

text \<open>
  A pandas frame: its column labels and its rows, each row a map from label to cell; a
  label the row has no cell for reads as the missing value. The default index counts the
  rows from 0.
\<close>

record dataframe =
  df_columns :: "string list"
  df_rows :: "db_row list"

definition cell :: "db_row \<Rightarrow> string \<Rightarrow> pyval" where
  "cell r c = (case r c of None \<Rightarrow> PNone | Some v \<Rightarrow> v)"

definition len :: "dataframe \<Rightarrow> nat" where
  "len df = length (df_rows df)"

text \<open>\<^verbatim>\<open>df.iloc[i:j]\<close> and \<^verbatim>\<open>df.to_dict('records')\<close>.\<close>

definition iloc :: "dataframe \<Rightarrow> nat \<Rightarrow> nat \<Rightarrow> dataframe" where
  "iloc df i j = df\<lparr>df_rows := take (j - i) (drop i (df_rows df))\<rparr>"

definition to_dict_records :: "dataframe \<Rightarrow> db_row list" where
  "to_dict_records df =
     map (\<lambda>r c. if c \<in> set (df_columns df) then Some (cell r c) else None) (df_rows df)"

definition isnull :: "pyval \<Rightarrow> bool" where
  "isnull v = (v = PNone)"

text \<open>\<^verbatim>\<open>str(value)\<close>, as \<^verbatim>\<open>astype(str)\<close> applies it to each cell.\<close>

fun string_of_nat :: "nat \<Rightarrow> string" where
  "string_of_nat n =
     (if n < 10 then [''0123456789'' ! n]
      else string_of_nat (n div 10) @ [''0123456789'' ! (n mod 10)])"

declare string_of_nat.simps [simp del]

definition astype_str :: "pyval \<Rightarrow> string" where
  "astype_str v =
     (case v of
        PNone \<Rightarrow> ''nan''
      | PStr s \<Rightarrow> s
      | PInt n \<Rightarrow> (if n < 0 then ''-'' @ string_of_nat (nat (- n)) else string_of_nat (nat n))
      | PFloat s \<Rightarrow> s
      | PDate s \<Rightarrow> s
      | PDateTime s \<Rightarrow> s
      | PBool b \<Rightarrow> (if b then ''True'' else ''False''))"

section \<open>DataValidator (app/core/data\_validator.py)\<close>

record validation_results =
  is_valid :: bool
  errors :: "violation list"

definition add_error :: "violation \<Rightarrow> validation_results \<Rightarrow> validation_results" where
  "add_error v res = res\<lparr>is_valid := False, errors := errors res @ [v]\<rparr>"

definition startswith :: "string \<Rightarrow> string \<Rightarrow> bool" where
  "startswith s p = (take (length p) s = p)"

text \<open>
  \<^verbatim>\<open>re.match(r'^\d+$', s)\<close> on ASCII text: one digit or more, then the end of the text or
  one line feed before it.
\<close>

definition is_digit :: "char \<Rightarrow> bool" where
  "is_digit c = (c \<in> set ''0123456789'')"

definition matches_digits :: "string \<Rightarrow> bool" where
  "matches_digits s =
     (let body = (if s \<noteq> [] \<and> last s = CHR 0x0A then butlast s else s)
      in body \<noteq> [] \<and> list_all is_digit body)"

text \<open>\<^verbatim>\<open>s.split(c)\<close> for a one-character separator.\<close>

fun split_on :: "char \<Rightarrow> string \<Rightarrow> string list" where
  "split_on c [] = [[]]"
| "split_on c (x # xs) =
     (if x = c then [] # split_on c xs
      else (case split_on c xs of
              [] \<Rightarrow> [[x]]
            | w # ws \<Rightarrow> (x # w) # ws))"

text \<open>
  \<^verbatim>\<open>int(str(col_type).split('(')[1].split(')')[0])\<close>: an \<^verbatim>\<open>IndexError\<close> when the type has
  no parenthesis, a \<^verbatim>\<open>ValueError\<close> when what stands in it is not a number.
\<close>

definition varchar_max_length :: "runtime \<Rightarrow> string \<Rightarrow> error + int" where
  "varchar_max_length rt t =
     (case split_on CHR ''('' t of
        a # b # rest \<Rightarrow>
          (case split_on CHR '')'' b of
             [] \<Rightarrow> Inl IndexError
           | inner # rest' \<Rightarrow>
               (case py_int rt inner of
                  None \<Rightarrow> Inl (InvalidLiteral inner)
                | Some n \<Rightarrow> Inr n))
      | _ \<Rightarrow> Inl IndexError)"

text \<open>The index labels of the rows whose cell in a column satisfies a test.\<close>

definition rows_where :: "(pyval \<Rightarrow> bool) \<Rightarrow> dataframe \<Rightarrow> string \<Rightarrow> nat list" where
  "rows_where bad df col = filter (\<lambda>i. bad (cell (df_rows df ! i) col)) [0..<len df]"

section \<open>The environment of the pipeline\<close>

record storage_config =
  input_folder :: path
  archive_folder :: path
  error_folder :: path

text \<open>
  What the pipeline reads from outside: the folders of the configuration, the date stamp
  \<^verbatim>\<open>datetime.now().strftime('%Y%m%d')\<close>, the identifier \<^verbatim>\<open>str(uuid.uuid4())\<close>, the
  parsers of the runtime, and pandas: its three readers (given the read options and the
  file) and whether \<^verbatim>\<open>pd.to_datetime\<close> accepts a column.
\<close>

record environment =
  storage :: storage_config
  today :: string
  new_uuid :: string
  rt :: runtime
  pd_read_csv :: "string option \<Rightarrow> content \<Rightarrow> error + dataframe"
  pd_read_json :: "content \<Rightarrow> error + dataframe"
  pd_read_excel :: "content \<Rightarrow> error + dataframe"
  pd_to_datetime_ok :: "pyval list \<Rightarrow> bool"

text \<open>The loop of \<^verbatim>\<open>validate_data\<close> over \<^verbatim>\<open>df.columns\<close>.\<close>

fun check_columns ::
  "environment \<Rightarrow> dataframe \<Rightarrow> (string \<rightharpoonup> col_info) \<Rightarrow> string list \<Rightarrow> validation_results \<Rightarrow>
   error + validation_results"
where
  "check_columns env df table_cols [] res = Inr res"
| "check_columns env df table_cols (col # cols) res =
     (case table_cols col of
        None \<Rightarrow> check_columns env df table_cols cols res
      | Some info \<Rightarrow>
          if startswith (col_type info) ''INTEGER'' then
            (let non_numeric = rows_where (\<lambda>v. \<not> matches_digits (astype_str v)) df col
             in check_columns env df table_cols cols
                  (if non_numeric \<noteq> [] then add_error (NonNumeric col non_numeric) res else res))
          else if startswith (col_type info) ''DATE'' then
            check_columns env df table_cols cols
              (if pd_to_datetime_ok env (map (\<lambda>r. cell r col) (df_rows df)) then res
               else add_error (InvalidDateFormat col) res)
          else if startswith (col_type info) ''VARCHAR'' then
            (case varchar_max_length (rt env) (col_type info) of
               Inl e \<Rightarrow> Inl e
             | Inr max_length \<Rightarrow>
                 (let too_long = rows_where (\<lambda>v. int (length (astype_str v)) > max_length) df col
                  in check_columns env df table_cols cols
                       (if too_long \<noteq> [] then add_error (TooLong max_length col too_long) res
                        else res)))
          else check_columns env df table_cols cols res)"

definition validate_data ::
  "environment \<Rightarrow> store \<Rightarrow> dataframe \<Rightarrow> string \<Rightarrow> error + validation_results" where
  "validate_data env st df table_name =
     (case get_table_columns st table_name of
        Inl e \<Rightarrow> Inl e
      | Inr columns \<Rightarrow>
          (let empty_rows =
                 filter (\<lambda>i. list_all (\<lambda>c. isnull (cell (df_rows df ! i) c)) (df_columns df))
                   [0..<len df];
               res = (if empty_rows \<noteq> []
                      then \<lparr>is_valid = False, errors = [EmptyRows empty_rows]\<rparr>
                      else \<lparr>is_valid = True, errors = []\<rparr>)
           in check_columns env df (map_of columns) (df_columns df) res))"


section \<open>ControlTable (app/models/control.py)\<close>

text \<open>
  The fields of the control record that the pipeline writes. A column with no value yet
  is \<open>None\<close>; \<open>status\<close> and \<open>file_location\<close> hold the text the source assigns.
\<close>

record control_record =
  process_id :: string
  file_name :: string
  file_path :: path
  target_table :: string
  status :: string
  total_rows :: "nat option"
  loaded_rows :: "nat option"
  error_message :: "error option"
  current_batch :: "nat option"
  file_location :: string
  created_by :: "string option"

section \<open>LocalFileHandler (app/core/file\_handler.py) and os.path\<close>

definition basename :: "path \<Rightarrow> string" where
  "basename p = rev (takeWhile (\<lambda>c. c \<noteq> CHR ''/'') (rev p))"

text \<open>\<^verbatim>\<open>os.path.join(a, b)\<close> on POSIX.\<close>

definition path_join :: "path \<Rightarrow> string \<Rightarrow> path" where
  "path_join a b =
     (if b \<noteq> [] \<and> hd b = CHR ''/'' then b
      else if a = [] \<or> last a = CHR ''/'' then a @ b
      else a @ ''/'' @ b)"

text \<open>
  \<^verbatim>\<open>os.path.splitext(file_path)[1][1:].lower()\<close>: what follows the last dot of the last
  component, the dots the component starts with left aside.
\<close>

definition file_type_of :: "path \<Rightarrow> string" where
  "file_type_of p =
     (let stem = dropWhile (\<lambda>c. c = CHR ''.'') (basename p)
      in if CHR ''.'' \<in> set stem then py_lower (rev (takeWhile (\<lambda>c. c \<noteq> CHR ''.'') (rev stem)))
         else [])"

definition read_file ::
  "environment \<Rightarrow> files \<Rightarrow> path \<Rightarrow> string \<Rightarrow> string option \<Rightarrow> error + dataframe" where
  "read_file env fs p file_type options =
     (if file_type = ''csv'' then
        (case fs p of None \<Rightarrow> Inl (FileNotFound p) | Some c \<Rightarrow> pd_read_csv env options c)
      else if file_type = ''json'' then
        (case fs p of None \<Rightarrow> Inl (FileNotFound p) | Some c \<Rightarrow> pd_read_json env c)
      else if file_type = ''xlsx'' then
        (case fs p of None \<Rightarrow> Inl (FileNotFound p) | Some c \<Rightarrow> pd_read_excel env c)
      else Inl (UnsupportedFileType file_type))"

text \<open>\<^verbatim>\<open>shutil.move(source, destination)\<close>: it raises when there is no file at the source.\<close>

definition move_file :: "files \<Rightarrow> path \<Rightarrow> path \<Rightarrow> error + files" where
  "move_file fs source destination =
     (case fs source of
        None \<Rightarrow> Inl (FileNotFound source)
      | Some c \<Rightarrow> Inr ((fs(source := None))(destination \<mapsto> c)))"

section \<open>FileProcessor (app/core/processor.py)\<close>

record pattern_config =
  pattern :: string
  table :: string
  read_options :: "string \<rightharpoonup> string"

text \<open>
  What an attempt can be observed to do, in order: a \<^verbatim>\<open>session.commit()\<close> with the
  control record as it then stands, a call of the validator on a frame, a call of
  \<^verbatim>\<open>db_handler.insert_data\<close> with the records of a chunk, and a move of a file that
  succeeded.
\<close>

datatype event =
    Commit control_record
  | ValidateCall dataframe string
  | InsertCall string "db_row list"
  | Moved path path

record world =
  fs :: files
  db :: store
  trace :: "event list"

definition commit :: "control_record \<Rightarrow> world \<Rightarrow> world" where
  "commit cr w = w\<lparr>trace := trace w @ [Commit cr]\<rparr>"

definition add_metadata_columns :: "dataframe \<Rightarrow> string \<Rightarrow> dataframe" where
  "add_metadata_columns df pid =
     (if ''load_batch_no'' \<in> set (df_columns df) then df
      else df\<lparr>df_columns := df_columns df @ [''load_batch_no''],
              df_rows := map (\<lambda>r. r(''load_batch_no'' \<mapsto> PStr pid)) (df_rows df)\<rparr>)"

text \<open>
  The loop of \<^verbatim>\<open>_process_batches\<close>, \<^verbatim>\<open>for i in range(0, len(df), batch_size)\<close>, from index
  \<open>i\<close> with \<open>total_loaded\<close> rows loaded so far. Each pass writes \<^verbatim>\<open>current_batch\<close> and commits
  before it calls \<^verbatim>\<open>insert_data\<close>, and writes \<^verbatim>\<open>loaded_rows\<close> and commits after it; an
  exception of the pass is raised again as "Error processing batch".
\<close>

function process_batches_loop ::
  "nat \<Rightarrow> dataframe \<Rightarrow> string \<Rightarrow> nat \<Rightarrow> nat \<Rightarrow> control_record \<Rightarrow> world \<Rightarrow>
   (error + unit) \<times> control_record \<times> world"
where
  "process_batches_loop batch_size df table_name i total_loaded cr w =
     (if batch_size = 0 \<or> len df \<le> i then (Inr (), cr, w)
      else
        (let batch_df = iloc df i (i + batch_size);
             cr1 = cr\<lparr>current_batch := Some (i div batch_size + 1)\<rparr>;
             w1 = commit cr1 w;
             records = to_dict_records batch_df;
             w2 = w1\<lparr>trace := trace w1 @ [InsertCall table_name records]\<rparr>
         in case insert_data (db w2) table_name records batch_size of
              (st, Inl e) \<Rightarrow> (Inl (BatchFailed (i div batch_size + 1) e), cr1, w2\<lparr>db := st\<rparr>)
            | (st, Inr u) \<Rightarrow>
                (let cr2 = cr1\<lparr>loaded_rows := Some (total_loaded + len batch_df)\<rparr>;
                     w3 = commit cr2 (w2\<lparr>db := st\<rparr>)
                 in process_batches_loop batch_size df table_name (i + batch_size)
                      (total_loaded + len batch_df) cr2 w3)))"
  by pat_completeness auto
termination
  by (relation "measure (\<lambda>(b, df, t, i, n, cr, w). len df - i)") auto

declare process_batches_loop.simps [simp del]

text \<open>\<^verbatim>\<open>_process_batches\<close>: \<^verbatim>\<open>batch_size = 1000\<close>, \<^verbatim>\<open>total_loaded = 0\<close>, then the loop.\<close>

definition batch_size :: nat where
  "batch_size = 1000"

definition process_batches ::
  "dataframe \<Rightarrow> string \<Rightarrow> control_record \<Rightarrow> world \<Rightarrow> (error + unit) \<times> control_record \<times> world" where
  "process_batches df table_name cr w = process_batches_loop batch_size df table_name 0 0 cr w"

text \<open>
  \<^verbatim>\<open>_process_file_content\<close>: read, write \<^verbatim>\<open>total_rows\<close>, validate, raise when the result is
  not valid, add the metadata column, load.
\<close>

definition process_file_content ::
  "environment \<Rightarrow> path \<Rightarrow> pattern_config \<Rightarrow> control_record \<Rightarrow> world \<Rightarrow>
   (error + unit) \<times> control_record \<times> world"
where
  "process_file_content env p pc cr w =
     (let file_type = file_type_of p
      in case read_file env (fs w) p file_type (read_options pc file_type) of
           Inl e \<Rightarrow> (Inl e, cr, w)
         | Inr df \<Rightarrow>
             (let cr1 = cr\<lparr>total_rows := Some (len df)\<rparr>;
                  w1 = commit cr1 w;
                  w2 = w1\<lparr>trace := trace w1 @ [ValidateCall df (table pc)]\<rparr>
              in case validate_data env (db w2) df (table pc) of
                   Inl e \<Rightarrow> (Inl e, cr1, w2)
                 | Inr res \<Rightarrow>
                     if \<not> is_valid res then (Inl (DataValidationFailed (errors res)), cr1, w2)
                     else process_batches (add_metadata_columns df (process_id cr1))
                            (table pc) cr1 w2))"

text \<open>\<^verbatim>\<open>_archive_file\<close>: the move first, then the terminal state and its commit.\<close>

definition archive_path :: "environment \<Rightarrow> string \<Rightarrow> path" where
  "archive_path env name = path_join (archive_folder (storage env)) (today env @ ''_'' @ name)"

definition archive_file ::
  "environment \<Rightarrow> path \<Rightarrow> string \<Rightarrow> control_record \<Rightarrow> world \<Rightarrow>
   (error + unit) \<times> control_record \<times> world"
where
  "archive_file env p name cr w =
     (case move_file (fs w) p (archive_path env name) of
        Inl e \<Rightarrow> (Inl e, cr, w)
      | Inr fs' \<Rightarrow>
          (let w1 = w\<lparr>fs := fs', trace := trace w @ [Moved p (archive_path env name)]\<rparr>;
               cr1 = cr\<lparr>status := ''SUCCESS'', file_location := ''ARCHIVE''\<rparr>
           in (Inr (), cr1, commit cr1 w1)))"

text \<open>
  \<^verbatim>\<open>_handle_error\<close>: status and message are assigned, then the file is moved; when the
  move raises, the exception is logged and nothing more is written.
\<close>

definition error_path :: "environment \<Rightarrow> string \<Rightarrow> path" where
  "error_path env name = path_join (error_folder (storage env)) (today env @ ''_'' @ name)"

definition handle_error ::
  "environment \<Rightarrow> path \<Rightarrow> string \<Rightarrow> control_record \<Rightarrow> error \<Rightarrow> world \<Rightarrow> control_record \<times> world"
where
  "handle_error env p name cr e w =
     (let cr1 = cr\<lparr>status := ''ERROR'', error_message := Some e\<rparr>
      in case move_file (fs w) p (error_path env name) of
           Inl move_error \<Rightarrow> (cr1, w)
         | Inr fs' \<Rightarrow>
             (let w1 = w\<lparr>fs := fs', trace := trace w @ [Moved p (error_path env name)]\<rparr>;
                  cr2 = cr1\<lparr>file_location := ''ERROR''\<rparr>
              in (cr2, commit cr2 w1)))"

text \<open>
  \<^verbatim>\<open>process_file\<close>: the record is created and committed, set to \<^verbatim>\<open>IN_PROGRESS\<close> and
  committed, then the content is processed and the file archived; an exception of either
  goes to \<^verbatim>\<open>_handle_error\<close>. The result is the record and the world at the end of the
  attempt.
\<close>

definition new_control_record :: "environment \<Rightarrow> path \<Rightarrow> pattern_config \<Rightarrow> control_record" where
  "new_control_record env p pc =
     \<lparr>process_id = new_uuid env, file_name = basename p, file_path = p,
      target_table = table pc, status = ''INITIATED'', total_rows = None, loaded_rows = None,
      error_message = None, current_batch = None, file_location = ''INPUT'',
      created_by = Some ''SYSTEM''\<rparr>"

definition process_file ::
  "environment \<Rightarrow> world \<Rightarrow> path \<Rightarrow> pattern_config \<Rightarrow> control_record \<times> world" where
  "process_file env w p pc =
     (let cr0 = new_control_record env p pc;
          w1 = commit cr0 w;
          cr1 = cr0\<lparr>status := ''IN_PROGRESS''\<rparr>;
          w2 = commit cr1 w1
      in case process_file_content env p pc cr1 w2 of
           (Inl e, cr2, w3) \<Rightarrow> handle_error env p (basename p) cr2 e w3
         | (Inr u, cr2, w3) \<Rightarrow>
             (case archive_file env p (basename p) cr2 w3 of
                (Inl e, cr3, w4) \<Rightarrow> handle_error env p (basename p) cr3 e w4
              | (Inr u', cr3, w4) \<Rightarrow> (cr3, w4)))"

text \<open>
  \<^verbatim>\<open>_retry_file\<close>: with \<^verbatim>\<open>start_from_failure\<close> the counters are only read (for the log
  line); without it they are set to zero. Then the file is moved from the error folder to
  the input folder under the record's file name; when the move raises, the exception is
  logged and status and location are left as they were.
\<close>

definition retry_file ::
  "environment \<Rightarrow> bool \<Rightarrow> control_record \<Rightarrow> world \<Rightarrow> control_record \<times> world" where
  "retry_file env start_from_failure process w =
     (let process1 = (if start_from_failure then process
                      else process\<lparr>current_batch := Some 0, loaded_rows := Some 0\<rparr>);
          source_path = path_join (error_folder (storage env)) (file_name process);
          dest_path = path_join (input_folder (storage env)) (file_name process)
      in case move_file (fs w) source_path dest_path of
           Inl e \<Rightarrow> (process1, w)
         | Inr fs' \<Rightarrow>
             (let process2 = process1\<lparr>file_location := ''INPUT'', status := ''PENDING_RETRY''\<rparr>;
                  w1 = w\<lparr>fs := fs', trace := trace w @ [Moved source_path dest_path]\<rparr>
              in (process2, commit process2 w1)))"

text \<open>
  \<^verbatim>\<open>retry_failed_files\<close> over the ledger (the rows of the control table, in the order the
  query returns them): the records whose status is \<^verbatim>\<open>ERROR\<close> go through \<^verbatim>\<open>_retry_file\<close>
  one after the other, the others are not touched.
\<close>

fun retry_failed_files ::
  "environment \<Rightarrow> bool \<Rightarrow> control_record list \<Rightarrow> world \<Rightarrow> control_record list \<times> world" where
  "retry_failed_files env start_from_failure [] w = ([], w)"
| "retry_failed_files env start_from_failure (process # rest) w =
     (if status process = ''ERROR'' then
        (case retry_file env start_from_failure process w of
           (process', w1) \<Rightarrow>
             (case retry_failed_files env start_from_failure rest w1 of
                (rest', w2) \<Rightarrow> (process' # rest', w2)))
      else
        (case retry_failed_files env start_from_failure rest w of
           (rest', w2) \<Rightarrow> (process # rest', w2)))"


section \<open>Reading a trace\<close>

text \<open>
  The calls of \<^verbatim>\<open>insert_data\<close>, the calls of the validator, and the values of
  \<^verbatim>\<open>current_batch\<close> that the commits of a trace wrote, each in the order of the trace.
\<close>

fun insert_calls :: "event list \<Rightarrow> (string \<times> db_row list) list" where
  "insert_calls [] = []"
| "insert_calls (InsertCall t rs # tr) = (t, rs) # insert_calls tr"
| "insert_calls (e # tr) = insert_calls tr"

fun validate_calls :: "event list \<Rightarrow> (dataframe \<times> string) list" where
  "validate_calls [] = []"
| "validate_calls (ValidateCall df t # tr) = (df, t) # validate_calls tr"
| "validate_calls (e # tr) = validate_calls tr"



text \<open>The number of chunks of \<open>n\<close> rows at chunk size \<open>b\<close>.\<close>

definition chunk_count :: "nat \<Rightarrow> nat \<Rightarrow> nat" where
  "chunk_count b n = (n + b - 1) div b"

section \<open>The coercion rule in the words of the specification\<close>

text \<open>
  "Case-insensitive match against \<^verbatim>\<open>{true,1,yes,y}\<close>": two texts match when they have the
  same length and, position by position, the same character or the two cases of one
  letter.
\<close>

definition letter_pairs :: "(char \<times> char) list" where
  "letter_pairs = zip ''ABCDEFGHIJKLMNOPQRSTUVWXYZ'' ''abcdefghijklmnopqrstuvwxyz''"

definition same_letter :: "char \<Rightarrow> char \<Rightarrow> bool" where
  "same_letter a b = (a = b \<or> (a, b) \<in> set letter_pairs \<or> (b, a) \<in> set letter_pairs)"

definition ci_equal :: "string \<Rightarrow> string \<Rightarrow> bool" where
  "ci_equal s t = list_all2 same_letter s t"

definition matches_truthy :: "string \<Rightarrow> bool" where
  "matches_truthy v = list_ex (ci_equal v) [''true'', ''1'', ''yes'', ''y'']"

section \<open>Example inputs\<close>

text \<open>
  A runtime, a reader, a store and a configuration to run the definitions on. The reader
  takes the first row of a file as the header and every field as text; the store accepts
  every batch.
\<close>

definition sample_runtime :: runtime where
  "sample_runtime =
     \<lparr>py_int = map_of [(''7'', 7), (''50'', 50)],
      py_float = (\<lambda>s. None),
      strptime_date = (\<lambda>s. None),
      strptime_datetime = (\<lambda>s. None)\<rparr>"

definition sample_read_csv :: "string option \<Rightarrow> content \<Rightarrow> error + dataframe" where
  "sample_read_csv options c =
     (case c of
        [] \<Rightarrow> Inl (ReadFailed [])
      | header # body \<Rightarrow>
          Inr \<lparr>df_columns = header,
               df_rows = map (\<lambda>row. map_of (zip header (map PStr row))) body\<rparr>)"

definition sample_env :: environment where
  "sample_env =
     \<lparr>storage = \<lparr>input_folder = ''/in'', archive_folder = ''/archive'', error_folder = ''/error''\<rparr>,
      today = ''20240101'',
      new_uuid = ''u1'',
      rt = sample_runtime,
      pd_read_csv = sample_read_csv,
      pd_read_json = (\<lambda>c. Inl (ReadFailed [])),
      pd_read_excel = (\<lambda>c. Inl (ReadFailed [])),
      pd_to_datetime_ok = (\<lambda>vs. True)\<rparr>"

definition sample_schema :: table_schema where
  "sample_schema =
     [(''id'', \<lparr>col_type = ''INTEGER'', nullable = False, default_value = None\<rparr>),
      (''name'', \<lparr>col_type = ''VARCHAR(50)'', nullable = True, default_value = None\<rparr>),
      (''load_batch_no'', \<lparr>col_type = ''VARCHAR(50)'', nullable = True, default_value = None\<rparr>)]"

definition sample_store :: store where
  "sample_store =
     \<lparr>schemas = [''t'' \<mapsto> sample_schema],
      accepts = (\<lambda>t existing batch. True),
      contents = (\<lambda>t. []),
      sent = []\<rparr>"

definition sample_pattern :: pattern_config where
  "sample_pattern = \<lparr>pattern = ''.*'', table = ''t'', read_options = Map.empty\<rparr>"

definition sample_world :: "content \<Rightarrow> world" where
  "sample_world c = \<lparr>fs = [''/in/a.csv'' \<mapsto> c], db = sample_store, trace = []\<rparr>"

definition sample_mappings :: "column_mapping list" where
  "sample_mappings =
     [\<lparr>column_index = 0, db_column = ''id'', data_type = ''integer'', required = True\<rparr>,
      \<lparr>column_index = 1, db_column = ''name'', data_type = ''string'', required = True\<rparr>]"



definition reconcile_schema :: table_schema where
  "reconcile_schema =
     [(''id'', \<lparr>col_type = ''INTEGER'', nullable = False, default_value = None\<rparr>),
      (''created'', \<lparr>col_type = ''TIMESTAMP'', nullable = False, default_value = Some ''now()''\<rparr>),
      (''name'', \<lparr>col_type = ''VARCHAR(50)'', nullable = True, default_value = None\<rparr>)]"

definition reconcile_store :: store where
  "reconcile_store = sample_store\<lparr>schemas := [''t'' \<mapsto> reconcile_schema]\<rparr>"

section \<open>Notions used in the proofs\<close>

text \<open>Two control records that differ at most in \<^verbatim>\<open>current_batch\<close> and \<^verbatim>\<open>loaded_rows\<close>.\<close>

definition same_but_counters :: "control_record \<Rightarrow> control_record \<Rightarrow> bool" where
  "same_but_counters a b =
     (process_id a = process_id b \<and> file_name a = file_name b \<and> file_path a = file_path b \<and>
      target_table a = target_table b \<and> status a = status b \<and> total_rows a = total_rows b \<and>
      error_message a = error_message b \<and> file_location a = file_location b \<and>
      created_by a = created_by b)"

text \<open>
  The record and the world of an attempt at two points of \<^verbatim>\<open>process_file\<close>: when the
  record has been set to \<^verbatim>\<open>IN_PROGRESS\<close> and committed, and when \<^verbatim>\<open>total_rows\<close> has been
  committed and the validator is called on the frame that was read.
\<close>

definition in_progress_record :: "environment \<Rightarrow> path \<Rightarrow> pattern_config \<Rightarrow> control_record" where
  "in_progress_record env p pc = (new_control_record env p pc)\<lparr>status := ''IN_PROGRESS''\<rparr>"

definition started_world :: "environment \<Rightarrow> world \<Rightarrow> path \<Rightarrow> pattern_config \<Rightarrow> world" where
  "started_world env w p pc =
     commit (in_progress_record env p pc) (commit (new_control_record env p pc) w)"

definition counted_record ::
  "environment \<Rightarrow> path \<Rightarrow> pattern_config \<Rightarrow> dataframe \<Rightarrow> control_record" where
  "counted_record env p pc df = (in_progress_record env p pc)\<lparr>total_rows := Some (len df)\<rparr>"

definition validating_world ::
  "environment \<Rightarrow> world \<Rightarrow> path \<Rightarrow> pattern_config \<Rightarrow> dataframe \<Rightarrow> world" where
  "validating_world env w p pc df =
     (commit (counted_record env p pc df) (started_world env w p pc))
       \<lparr>trace := trace (commit (counted_record env p pc df) (started_world env w p pc)) @
                  [ValidateCall df (table pc)]\<rparr>"

text \<open>What \<^verbatim>\<open>process_file\<close> reads: the frame of the file, or the exception of the read.\<close>

definition read_input :: "environment \<Rightarrow> world \<Rightarrow> path \<Rightarrow> pattern_config \<Rightarrow> error + dataframe" where
  "read_input env w p pc =
     read_file env (fs w) p (file_type_of p) (read_options pc (file_type_of p))"

text \<open>The frames the example reader makes of two files of one row.\<close>

definition rejected_frame :: dataframe where
  "rejected_frame =
     \<lparr>df_columns = [''id'', ''name''], df_rows = [[''name'' \<mapsto> PStr ''x'', ''id'' \<mapsto> PStr ''x'']]\<rparr>"


text \<open>
  A store that refuses a batch holding a row whose \<^verbatim>\<open>id\<close> is \<^verbatim>\<open>13\<close>, a frame of one full
  chunk of rows the store accepts followed by one row it refuses (1001 rows), and the
  world and the record of an attempt on them.
\<close>

definition strict_store :: store where
  "strict_store =
     sample_store\<lparr>accepts := (\<lambda>t existing batch. list_all (\<lambda>r. r ''id'' \<noteq> Some (PStr ''13'')) batch)\<rparr>"

definition two_chunk_frame :: dataframe where
  "two_chunk_frame =
     \<lparr>df_columns = [''id''],
      df_rows = replicate batch_size [''id'' \<mapsto> PStr ''7''] @ [[''id'' \<mapsto> PStr ''13'']]\<rparr>"

definition strict_world :: world where
  "strict_world = \<lparr>fs = Map.empty, db = strict_store, trace = []\<rparr>"

definition fresh_record :: control_record where
  "fresh_record = in_progress_record sample_env ''/in/a.csv'' sample_pattern"





text \<open>The two paths of \<^verbatim>\<open>_retry_file\<close>.\<close>

definition retry_source :: "environment \<Rightarrow> control_record \<Rightarrow> path" where
  "retry_source env process = path_join (error_folder (storage env)) (file_name process)"


section \<open>CSVHandler: type conversion and short rows\<close>

subsection \<open>Lower case and the case-insensitive match\<close>

lemma lower_char_alt: "lower_char c = (case map_of letter_pairs c of Some l \<Rightarrow> l | None \<Rightarrow> c)"
  by (simp add: lower_char_def letter_pairs_def)

lemma distinct_letter_keys: "distinct (map fst letter_pairs)"
  by (simp add: letter_pairs_def)

lemma lower_char_same_letter:
  assumes "b \<notin> fst ` set letter_pairs"
  shows "lower_char a = b \<longleftrightarrow> same_letter a b"
proof (cases "map_of letter_pairs a")
  case None
  then have "a \<notin> fst ` set letter_pairs" by (simp add: map_of_eq_None_iff)
  then have na: "\<And>x. (a, x) \<notin> set letter_pairs" by (metis fst_conv image_eqI)
  from assms have nb: "\<And>x. (b, x) \<notin> set letter_pairs" by (metis fst_conv image_eqI)
  have "lower_char a = a" using None by (simp only: lower_char_alt option.case)
  then show ?thesis using na nb unfolding same_letter_def by simp
next
  case (Some l)
  then have in1: "(a, l) \<in> set letter_pairs" by (rule map_of_SomeD)
  have uniq: "x = l" if "(a, x) \<in> set letter_pairs" for x
  proof -
    from that have "map_of letter_pairs a = Some x"
      using distinct_letter_keys by (rule_tac map_of_is_SomeI)
    with Some show "x = l" by simp
  qed
  from assms have nb: "\<And>x. (b, x) \<notin> set letter_pairs" by (metis fst_conv image_eqI)
  have ab: "a \<noteq> b" using in1 nb by blast
  have "lower_char a = l" using Some by (simp only: lower_char_alt option.case)
  then show ?thesis using in1 uniq nb ab unfolding same_letter_def by blast
qed

lemma py_lower_ci_equal:
  "\<forall>c \<in> set t. c \<notin> fst ` set letter_pairs \<Longrightarrow> py_lower v = t \<longleftrightarrow> ci_equal v t"
proof (induction v arbitrary: t)
  case Nil
  then show ?case by (auto simp: py_lower_def ci_equal_def)
next
  case (Cons a v)
  show ?case
  proof (cases t)
    case Nil
    then show ?thesis by (simp add: py_lower_def ci_equal_def)
  next
    case (Cons b t')
    with Cons.prems have b: "b \<notin> fst ` set letter_pairs"
      and t': "\<forall>c \<in> set t'. c \<notin> fst ` set letter_pairs"
      by simp_all
    have "py_lower v = t' \<longleftrightarrow> ci_equal v t'" using Cons.IH[OF t'] .
    then show ?thesis using lower_char_same_letter[OF b, of a] Cons
      by (simp add: py_lower_def ci_equal_def)
  qed
qed

lemma truthy_lower_case:
  "\<forall>t \<in> set [''true'', ''1'', ''yes'', ''y'']. \<forall>c \<in> set t. c \<notin> fst ` set letter_pairs"
  by (simp add: letter_pairs_def)

lemma py_lower_truthy:
  "py_lower v \<in> set [''true'', ''1'', ''yes'', ''y''] \<longleftrightarrow> matches_truthy v"
proof -
  have "py_lower v \<in> set [''true'', ''1'', ''yes'', ''y'']
          \<longleftrightarrow> (\<exists>t \<in> set [''true'', ''1'', ''yes'', ''y'']. py_lower v = t)"
    by blast
  also have "\<dots> \<longleftrightarrow> (\<exists>t \<in> set [''true'', ''1'', ''yes'', ''y'']. ci_equal v t)"
    using truthy_lower_case py_lower_ci_equal by blast
  finally show ?thesis by (simp only: matches_truthy_def list_ex_iff)
qed

text \<open>
  Claim C8, as amended. Boolean coercion never raises. On a non-empty text it returns
  true exactly when the text matches one of \<^verbatim>\<open>true\<close>, \<^verbatim>\<open>1\<close>, \<^verbatim>\<open>yes\<close>, \<^verbatim>\<open>y\<close> without regard
  to case, and false on every other non-empty text; on the empty text it returns
  \<^verbatim>\<open>None\<close>, because \<^verbatim>\<open>_convert_data_type\<close> tests for the empty text before it looks at
  the type.
\<close>

theorem boolean_coercion:
  assumes "py_lower dtype = ''boolean''"
  shows "convert_data_type rtm v dtype =
           (if v = [] then Inr PNone else Inr (PBool (matches_truthy v)))"
  using assms by (simp add: convert_data_type_def py_lower_truthy del: set_simps)

text \<open>
  The witness of C8: the type \<^verbatim>\<open>Boolean\<close> lowers to \<^verbatim>\<open>boolean\<close>; \<^verbatim>\<open>maybe\<close> converts to false
  and \<^verbatim>\<open>YeS\<close> to true, with no error.
\<close>

theorem boolean_coercion_witness:
  "py_lower ''Boolean'' = ''boolean'' \<and>
   convert_data_type sample_runtime ''maybe'' ''Boolean'' = Inr (PBool False) \<and>
   convert_data_type sample_runtime ''YeS'' ''Boolean'' = Inr (PBool True)"
proof -
  have b: "py_lower ''Boolean'' = ''boolean''"
    by (simp add: py_lower_def lower_char_def)
  have m: "\<not> matches_truthy ''maybe''" and y: "matches_truthy ''YeS''"
    by (simp_all add: matches_truthy_def ci_equal_def same_letter_def letter_pairs_def)
  from boolean_coercion[OF b, of sample_runtime "''maybe''"]
       boolean_coercion[OF b, of sample_runtime "''YeS''"] b m y
  show ?thesis by simp
qed

text \<open>
  The counterexample to C8 as it was stated: the empty text matches none of the four,
  and its coercion is \<^verbatim>\<open>None\<close>, not false.
\<close>

theorem boolean_coercion_empty_counterexample:
  "\<not> matches_truthy [] \<and>
   convert_data_type sample_runtime [] ''boolean'' = Inr PNone \<and>
   convert_data_type sample_runtime [] ''boolean'' \<noteq> Inr (PBool False)"
  by (simp add: matches_truthy_def ci_equal_def convert_data_type_def)

subsection \<open>Rows shorter than a mapping's index\<close>

lemma index_to_column_Some:
  "index_to_column ms k = Some m \<Longrightarrow> m \<in> set ms \<and> column_index m = k"
  unfolding index_to_column_def by (auto dest!: map_of_SomeD)

lemma process_fields_dom:
  "process_fields rtm i2c n cells acc = Inr r \<Longrightarrow> c \<in> dom r \<Longrightarrow>
   c \<in> dom acc \<or> (\<exists>(i, v) \<in> set cells. \<exists>m. i2c (int i) = Some m \<and> db_column m = c)"
proof (induction cells arbitrary: acc)
  case Nil
  then show ?case by simp
next
  case (Cons f cells)
  obtain i v where f: "f = (i, v)" by (cases f)
  show ?case
  proof (cases "i2c (int i)")
    case None
    with Cons f show ?thesis by auto
  next
    case (Some m)
    with Cons.prems f obtain converted where
      rest: "process_fields rtm i2c n cells (acc(db_column m \<mapsto> converted)) = Inr r"
      by (auto split: if_splits sum.splits)
    from Cons.IH[OF rest Cons.prems(2)] Some f show ?thesis by (auto split: if_splits)
  qed
qed

lemma process_fields_required:
  "process_fields rtm i2c n cells acc = Inl (RequiredFieldEmpty c k) \<Longrightarrow>
   \<exists>(i, v) \<in> set cells. \<exists>m. i2c (int i) = Some m \<and> db_column m = c \<and> required m \<and> py_strip v = []"
proof (induction cells arbitrary: acc)
  case Nil
  then show ?case by simp
next
  case (Cons f cells)
  obtain i v where f: "f = (i, v)" by (cases f)
  show ?case
  proof (cases "i2c (int i)")
    case None
    with Cons f show ?thesis by auto
  next
    case (Some m)
    show ?thesis
    proof (cases "required m \<and> py_strip v = []")
      case True
      with Cons.prems f Some show ?thesis by auto
    next
      case False
      with Cons.prems f Some obtain converted where
        "process_fields rtm i2c n cells (acc(db_column m \<mapsto> converted)) = Inl (RequiredFieldEmpty c k)"
        by (auto split: sum.splits)
      from Cons.IH[OF this] show ?thesis by auto
    qed
  qed
qed

lemma enumerate_index: "(i, v) \<in> set (List.enumerate 0 row) \<Longrightarrow> i < length row"
  by (auto simp: enumerate_eq_zip dest: set_zip_leftD)

lemma no_cell_for_mapping:
  assumes "int (length row) \<le> column_index m"
    and "\<forall>m' \<in> set ms. column_index m' < int (length row) \<longrightarrow> db_column m' \<noteq> db_column m"
  shows "\<not> (\<exists>(i, v) \<in> set (List.enumerate 0 row).
              \<exists>m'. index_to_column ms (int i) = Some m' \<and> db_column m' = db_column m)"
proof
  assume "\<exists>(i, v) \<in> set (List.enumerate 0 row).
            \<exists>m'. index_to_column ms (int i) = Some m' \<and> db_column m' = db_column m"
  then obtain i v m' where iv: "(i, v) \<in> set (List.enumerate 0 row)"
    and m': "index_to_column ms (int i) = Some m'" "db_column m' = db_column m"
    by blast
  from iv have "i < length row" by (rule enumerate_index)
  moreover from m'(1) have "m' \<in> set ms" "column_index m' = int i"
    by (auto dest: index_to_column_Some)
  ultimately show False using assms(2) m'(2) by auto
qed

text \<open>
  Claim C9. Let a row have fewer fields than the index of a required mapping plus one
  (and let no mapping whose index the row does have write the same target column). Then
  parsing the row raises no required-field error for that column, and the record it
  produces has no entry for the column: the check runs only over the indices the row
  has.
\<close>

theorem short_row_skips_required_check:
  assumes "m \<in> set ms" and "required m"
    and "int (length row) \<le> column_index m"
    and "\<forall>m' \<in> set ms. column_index m' < int (length row) \<longrightarrow> db_column m' \<noteq> db_column m"
  shows "(\<forall>k. process_row rtm ms n row \<noteq> Inl (RequiredFieldEmpty (db_column m) k)) \<and>
         (\<forall>r. process_row rtm ms n row = Inr r \<longrightarrow> db_column m \<notin> dom r)"
proof (intro conjI allI impI)
  note none = no_cell_for_mapping[OF assms(3,4)]
  fix k
  show "process_row rtm ms n row \<noteq> Inl (RequiredFieldEmpty (db_column m) k)"
  proof
    assume "process_row rtm ms n row = Inl (RequiredFieldEmpty (db_column m) k)"
    from process_fields_required[OF this[unfolded process_row_def]] none show False by blast
  qed
next
  note none = no_cell_for_mapping[OF assms(3,4)]
  fix r
  assume r: "process_row rtm ms n row = Inr r"
  show "db_column m \<notin> dom r"
  proof
    assume "db_column m \<in> dom r"
    from process_fields_dom[OF r[unfolded process_row_def] this] none show False by auto
  qed
qed

lemma sample_short_row:
  "process_row sample_runtime sample_mappings 1 [''7''] = Inr [''id'' \<mapsto> PInt 7]"
  by (simp add: process_row_def index_to_column_def sample_mappings_def enumerate_eq_zip
      py_strip_def is_space_def convert_data_type_def py_lower_def lower_char_def
      sample_runtime_def)

text \<open>
  The witness of C9: the row \<^verbatim>\<open>7\<close> has one field, the required mapping of \<^verbatim>\<open>name\<close> reads
  index 1; the row parses to a record with \<^verbatim>\<open>id\<close> alone.
\<close>

theorem short_row_skips_required_check_witness:
  "process_row sample_runtime sample_mappings 1 [''7''] = Inr [''id'' \<mapsto> PInt 7] \<and>
   ''name'' \<notin> dom [''id'' \<mapsto> PInt 7] \<and>
   process_row sample_runtime sample_mappings 1 [''7''] \<noteq> Inl (RequiredFieldEmpty ''name'' 1)"
proof -
  let ?m = "\<lparr>column_index = 1, db_column = ''name'', data_type = ''string'', required = True\<rparr>"
  have 1: "?m \<in> set sample_mappings" and 2: "required ?m"
    and 3: "int (length [''7'']) \<le> column_index ?m"
    and 4: "\<forall>m' \<in> set sample_mappings.
              column_index m' < int (length [''7'']) \<longrightarrow> db_column m' \<noteq> db_column ?m"
    by (simp_all add: sample_mappings_def)
  from short_row_skips_required_check[OF 1 2 3 4, of sample_runtime 1] sample_short_row
  show ?thesis by simp
qed

section \<open>DatabaseHandler: reconciliation with the schema\<close>

lemma prepare_record_other:
  "prepare_record columns idx row acc = Inr p \<Longrightarrow> c \<notin> fst ` set columns \<Longrightarrow> p c = acc c"
proof (induction columns arbitrary: acc)
  case Nil
  then show ?case by simp
next
  case (Cons a columns)
  obtain col_name info where a: "a = (col_name, info)" by (cases a)
  from Cons.prems(2) a have ne: "c \<noteq> col_name" and notin: "c \<notin> fst ` set columns" by auto
  from Cons.prems(1) a Cons.IH[OF _ notin] ne show ?case
    by (auto split: option.splits if_splits)
qed

lemma prepare_record_column:
  "prepare_record columns idx row acc = Inr p \<Longrightarrow> distinct (map fst columns) \<Longrightarrow>
   (c, info) \<in> set columns \<Longrightarrow>
   p c = (case row c of
            Some v \<Rightarrow> Some v
          | None \<Rightarrow> if default_value info \<noteq> None then acc c else Some PNone) \<and>
   (row c = None \<and> default_value info = None \<longrightarrow> nullable info)"
proof (induction columns arbitrary: acc)
  case Nil
  then show ?case by simp
next
  case (Cons a columns)
  obtain col_name info' where a: "a = (col_name, info')" by (cases a)
  from Cons.prems(2) a have d: "distinct (map fst columns)" and fresh: "col_name \<notin> fst ` set columns"
    by auto
  show ?case
  proof (cases "(c, info) = (col_name, info')")
    case True
    then have c: "c = col_name" and i: "info = info'" by simp_all
    from Cons.prems(1) a obtain acc' where
      rest: "prepare_record columns idx row acc' = Inr p" and
      acc': "acc' c = (case row c of
            Some v \<Rightarrow> Some v
          | None \<Rightarrow> if default_value info \<noteq> None then acc c else Some PNone)" and
      nul: "row c = None \<and> default_value info = None \<longrightarrow> nullable info"
      unfolding c i by (auto split: option.splits if_splits)
    from prepare_record_other[OF rest] fresh c have "p c = acc' c" by simp
    with acc' nul show ?thesis by simp
  next
    case False
    with Cons.prems(3) a have mem: "(c, info) \<in> set columns" by auto
    then have ne: "c \<noteq> col_name" using fresh by force
    from Cons.prems(1) a obtain acc' where
      rest: "prepare_record columns idx row acc' = Inr p" and acc': "acc' c = acc c"
      using ne by (auto split: option.splits if_splits)
    from Cons.IH[OF rest d mem] acc' show ?thesis by (auto split: option.splits)
  qed
qed

lemma prepare_record_fail:
  "prepare_record columns idx row acc = Inl e \<Longrightarrow>
   \<exists>c info. (c, info) \<in> set columns \<and> row c = None \<and> default_value info = None \<and>
            \<not> nullable info \<and> e = MissingRequiredColumn c idx"
proof (induction columns arbitrary: acc)
  case Nil
  then show ?case by simp
next
  case (Cons a columns)
  obtain col_name info where a: "a = (col_name, info)" by (cases a)
  show ?case
  proof (cases "row col_name = None \<and> default_value info = None \<and> \<not> nullable info")
    case True
    with Cons.prems a show ?thesis by auto
  next
    case False
    with Cons.prems a obtain acc' where "prepare_record columns idx row acc' = Inl e"
      by (auto split: option.splits if_splits)
    from Cons.IH[OF this] show ?thesis by auto
  qed
qed

lemma prepare_record_missing:
  "(c, info) \<in> set columns \<Longrightarrow> row c = None \<Longrightarrow> default_value info = None \<Longrightarrow>
   \<not> nullable info \<Longrightarrow> \<exists>e. prepare_record columns idx row acc = Inl e"
proof (induction columns arbitrary: acc)
  case Nil
  then show ?case by simp
next
  case (Cons a columns)
  obtain col_name info' where a: "a = (col_name, info')" by (cases a)
  show ?case
  proof (cases "(c, info) = (col_name, info')")
    case True
    with Cons.prems a show ?thesis by simp
  next
    case False
    with Cons.prems(1) a have mem: "(c, info) \<in> set columns" by auto
    from Cons.IH[OF mem Cons.prems(2,3,4)] a show ?thesis
      by (auto split: option.splits)
  qed
qed

lemma prepare_records_ok:
  "prepare_records columns idx rows acc = Inr ps \<Longrightarrow>
   \<exists>qs. ps = acc @ qs \<and> length qs = length rows \<and>
        (\<forall>i < length rows. prepare_record columns (idx + i) (rows ! i) Map.empty = Inr (qs ! i))"
proof (induction rows arbitrary: idx acc)
  case Nil
  then show ?case by simp
next
  case (Cons row rows)
  from Cons.prems obtain p where
    p: "prepare_record columns idx row Map.empty = Inr p" and
    rest: "prepare_records columns (Suc idx) rows (acc @ [p]) = Inr ps"
    by (auto split: sum.splits)
  from Cons.IH[OF rest] obtain qs where
    qs: "ps = (acc @ [p]) @ qs" "length qs = length rows"
      "\<forall>i < length rows. prepare_record columns (Suc idx + i) (rows ! i) Map.empty = Inr (qs ! i)"
    by blast
  have "\<forall>i < length (row # rows).
          prepare_record columns (idx + i) ((row # rows) ! i) Map.empty = Inr ((p # qs) ! i)"
  proof (intro allI impI)
    fix i assume "i < length (row # rows)"
    then show "prepare_record columns (idx + i) ((row # rows) ! i) Map.empty = Inr ((p # qs) ! i)"
      using p qs(3) by (cases i) simp_all
  qed
  with qs(1,2) show ?case by (intro exI[of _ "p # qs"]) simp
qed

lemma prepare_records_fail:
  "prepare_records columns idx rows acc = Inl e \<Longrightarrow>
   \<exists>i < length rows. prepare_record columns (idx + i) (rows ! i) Map.empty = Inl e"
proof (induction rows arbitrary: idx acc)
  case Nil
  then show ?case by simp
next
  case (Cons row rows)
  show ?case
  proof (cases "prepare_record columns idx row Map.empty")
    case (Inl e')
    with Cons.prems have "e' = e" by simp
    with Inl show ?thesis by (intro exI[of _ 0]) simp
  next
    case (Inr p)
    with Cons.prems have "prepare_records columns (Suc idx) rows (acc @ [p]) = Inl e" by simp
    from Cons.IH[OF this] obtain i where
      "i < length rows" "prepare_record columns (Suc idx + i) (rows ! i) Map.empty = Inl e"
      by blast
    then show ?thesis by (intro exI[of _ "Suc i"]) simp
  qed
qed

lemma prepare_records_missing:
  "i < length rows \<Longrightarrow> prepare_record columns (idx + i) (rows ! i) Map.empty = Inl e' \<Longrightarrow>
   \<exists>e. prepare_records columns idx rows acc = Inl e"
proof (induction rows arbitrary: idx acc i)
  case Nil
  then show ?case by simp
next
  case (Cons row rows)
  show ?case
  proof (cases "prepare_record columns idx row Map.empty")
    case (Inl e0)
    then show ?thesis by simp
  next
    case (Inr p)
    with Cons.prems obtain k where i: "i = Suc k" by (cases i) auto
    with Cons.prems have "k < length rows"
      "prepare_record columns (Suc idx + k) (rows ! k) Map.empty = Inl e'" by simp_all
    from Cons.IH[OF this] Inr show ?thesis by simp
  qed
qed

lemma insert_data_prepare_fails:
  "validate_and_prepare_data st table_name data = Inl e \<Longrightarrow>
   insert_data st table_name data bs = (st, Inl e)"
  by (auto simp: insert_data_def validate_and_prepare_data_def split: if_splits)

text \<open>
  Claim C6. Let the table have the columns \<open>columns\<close> (a dict: no name twice). When
  reconciliation returns, it returns one row per input row; in each, a column of the
  schema that the input row has keeps the row's value, a column the row lacks is left
  out when the schema gives it a default and is set to \<^verbatim>\<open>None\<close> when it has no default
  (and then it is nullable), and a name that is not a column of the schema is left out.
  Reconciliation fails exactly when some row lacks a column that has no default and is
  not nullable; the error names such a column and row, and \<^verbatim>\<open>insert_data\<close> then returns
  that error with the store as it was: nothing was sent and nothing was committed.
\<close>

theorem reconciliation_against_schema:
  assumes "schemas st table_name = Some columns" and "distinct (map fst columns)"
  shows
    "(\<forall>prepared. validate_and_prepare_data st table_name data = Inr prepared \<longrightarrow>
        length prepared = length data \<and>
        (\<forall>i < length data.
           (\<forall>c. c \<notin> fst ` set columns \<longrightarrow> (prepared ! i) c = None) \<and>
           (\<forall>(c, info) \<in> set columns.
              (\<forall>v. (data ! i) c = Some v \<longrightarrow> (prepared ! i) c = Some v) \<and>
              ((data ! i) c = None \<and> default_value info \<noteq> None \<longrightarrow> (prepared ! i) c = None) \<and>
              ((data ! i) c = None \<and> default_value info = None \<longrightarrow>
                 nullable info \<and> (prepared ! i) c = Some PNone)))) \<and>
     ((\<exists>i < length data. \<exists>(c, info) \<in> set columns.
          (data ! i) c = None \<and> default_value info = None \<and> \<not> nullable info)
        \<longleftrightarrow> (\<exists>e. validate_and_prepare_data st table_name data = Inl e)) \<and>
     (\<forall>e. validate_and_prepare_data st table_name data = Inl e \<longrightarrow>
        (\<exists>c i info. e = MissingRequiredColumn c i \<and> i < length data \<and> (c, info) \<in> set columns \<and>
            (data ! i) c = None \<and> default_value info = None \<and> \<not> nullable info) \<and>
        insert_data st table_name data bs = (st, Inl e))"
proof -
  have v: "validate_and_prepare_data st table_name data =
             (if data = [] then Inr [] else prepare_records columns 0 data [])"
    using assms(1) by (simp add: validate_and_prepare_data_def get_table_columns_def)
  have ok: "length prepared = length data \<and>
        (\<forall>i < length data.
           (\<forall>c. c \<notin> fst ` set columns \<longrightarrow> (prepared ! i) c = None) \<and>
           (\<forall>(c, info) \<in> set columns.
              (\<forall>v. (data ! i) c = Some v \<longrightarrow> (prepared ! i) c = Some v) \<and>
              ((data ! i) c = None \<and> default_value info \<noteq> None \<longrightarrow> (prepared ! i) c = None) \<and>
              ((data ! i) c = None \<and> default_value info = None \<longrightarrow>
                 nullable info \<and> (prepared ! i) c = Some PNone)))"
    if "validate_and_prepare_data st table_name data = Inr prepared" for prepared
  proof (cases "data = []")
    case True
    with that v show ?thesis by simp
  next
    case False
    with that v have "prepare_records columns 0 data [] = Inr prepared" by simp
    from prepare_records_ok[OF this] have len: "length prepared = length data"
      and each: "\<forall>i < length data. prepare_record columns i (data ! i) Map.empty = Inr (prepared ! i)"
      by auto
    have "(\<forall>c. c \<notin> fst ` set columns \<longrightarrow> (prepared ! i) c = None) \<and>
           (\<forall>(c, info) \<in> set columns.
              (\<forall>v. (data ! i) c = Some v \<longrightarrow> (prepared ! i) c = Some v) \<and>
              ((data ! i) c = None \<and> default_value info \<noteq> None \<longrightarrow> (prepared ! i) c = None) \<and>
              ((data ! i) c = None \<and> default_value info = None \<longrightarrow>
                 nullable info \<and> (prepared ! i) c = Some PNone))" if "i < length data" for i
    proof -
      from each that have p: "prepare_record columns i (data ! i) Map.empty = Inr (prepared ! i)"
        by simp
      have 1: "\<forall>c. c \<notin> fst ` set columns \<longrightarrow> (prepared ! i) c = None"
        using prepare_record_other[OF p] by simp
      have 2: "(\<forall>v. (data ! i) c = Some v \<longrightarrow> (prepared ! i) c = Some v) \<and>
              ((data ! i) c = None \<and> default_value info \<noteq> None \<longrightarrow> (prepared ! i) c = None) \<and>
              ((data ! i) c = None \<and> default_value info = None \<longrightarrow>
                 nullable info \<and> (prepared ! i) c = Some PNone)"
        if "(c, info) \<in> set columns" for c info
        using prepare_record_column[OF p assms(2) that] by (auto split: option.splits)
      from 1 2 show ?thesis by blast
    qed
    with len show ?thesis by blast
  qed
  have fail: "(\<exists>c i info. e = MissingRequiredColumn c i \<and> i < length data \<and> (c, info) \<in> set columns \<and>
            (data ! i) c = None \<and> default_value info = None \<and> \<not> nullable info)"
    if "validate_and_prepare_data st table_name data = Inl e" for e
  proof -
    from that v have "prepare_records columns 0 data [] = Inl e" by (auto split: if_splits)
    from prepare_records_fail[OF this] obtain i where
      i: "i < length data" "prepare_record columns i (data ! i) Map.empty = Inl e" by auto
    from prepare_record_fail[OF i(2)] i(1) show ?thesis by blast
  qed
  have missing: "\<exists>e. validate_and_prepare_data st table_name data = Inl e"
    if "\<exists>i < length data. \<exists>(c, info) \<in> set columns.
          (data ! i) c = None \<and> default_value info = None \<and> \<not> nullable info"
  proof -
    from that obtain i c info where i: "i < length data" and c: "(c, info) \<in> set columns"
      "(data ! i) c = None" "default_value info = None" "\<not> nullable info" by blast
    from prepare_record_missing[where row = "data ! i" and idx = "0 + i" and acc = Map.empty, OF c]
    obtain e' where
      "prepare_record columns (0 + i) (data ! i) Map.empty = Inl e'" by blast
    from prepare_records_missing[OF i this] obtain e where "prepare_records columns 0 data [] = Inl e"
      by blast
    moreover from i have "data \<noteq> []" by auto
    ultimately show ?thesis using v by auto
  qed
  have A: "\<forall>prepared. validate_and_prepare_data st table_name data = Inr prepared \<longrightarrow>
        length prepared = length data \<and>
        (\<forall>i < length data.
           (\<forall>c. c \<notin> fst ` set columns \<longrightarrow> (prepared ! i) c = None) \<and>
           (\<forall>(c, info) \<in> set columns.
              (\<forall>v. (data ! i) c = Some v \<longrightarrow> (prepared ! i) c = Some v) \<and>
              ((data ! i) c = None \<and> default_value info \<noteq> None \<longrightarrow> (prepared ! i) c = None) \<and>
              ((data ! i) c = None \<and> default_value info = None \<longrightarrow>
                 nullable info \<and> (prepared ! i) c = Some PNone)))"
    using ok by (intro allI impI)
  have B: "(\<exists>i < length data. \<exists>(c, info) \<in> set columns.
          (data ! i) c = None \<and> default_value info = None \<and> \<not> nullable info)
        \<longleftrightarrow> (\<exists>e. validate_and_prepare_data st table_name data = Inl e)"
  proof
    assume "\<exists>i < length data. \<exists>(c, info) \<in> set columns.
          (data ! i) c = None \<and> default_value info = None \<and> \<not> nullable info"
    then show "\<exists>e. validate_and_prepare_data st table_name data = Inl e" by (rule missing)
  next
    assume "\<exists>e. validate_and_prepare_data st table_name data = Inl e"
    then obtain e where "validate_and_prepare_data st table_name data = Inl e" ..
    from fail[OF this] show "\<exists>i < length data. \<exists>(c, info) \<in> set columns.
          (data ! i) c = None \<and> default_value info = None \<and> \<not> nullable info"
      by blast
  qed
  have C: "\<forall>e. validate_and_prepare_data st table_name data = Inl e \<longrightarrow>
        (\<exists>c i info. e = MissingRequiredColumn c i \<and> i < length data \<and> (c, info) \<in> set columns \<and>
            (data ! i) c = None \<and> default_value info = None \<and> \<not> nullable info) \<and>
        insert_data st table_name data bs = (st, Inl e)"
    using fail insert_data_prepare_fails by (intro allI impI conjI)
  from A B C show ?thesis by (intro conjI)
qed

lemma sample_reconciled:
  "validate_and_prepare_data reconcile_store ''t'' [[''id'' \<mapsto> PInt 7, ''extra'' \<mapsto> PBool True]] =
     Inr [[''id'' \<mapsto> PInt 7, ''name'' \<mapsto> PNone]]"
  by (simp add: validate_and_prepare_data_def get_table_columns_def reconcile_store_def
      reconcile_schema_def sample_store_def)

lemma sample_not_reconciled:
  "validate_and_prepare_data reconcile_store ''t'' [[''id'' \<mapsto> PInt 7], [''name'' \<mapsto> PStr ''x'']] =
     Inl (MissingRequiredColumn ''id'' 1)"
  by (simp add: validate_and_prepare_data_def get_table_columns_def reconcile_store_def
      reconcile_schema_def sample_store_def)

text \<open>
  The witness of C6, on a table with a required column \<^verbatim>\<open>id\<close>, a column \<^verbatim>\<open>created\<close> with a
  default and a nullable column \<^verbatim>\<open>name\<close>: a row with \<^verbatim>\<open>id\<close> keeps it, gets no \<^verbatim>\<open>created\<close>
  and a null \<^verbatim>\<open>name\<close>; a second row without \<^verbatim>\<open>id\<close> fails the load, and the store is as it
  was.
\<close>

theorem reconciliation_against_schema_witness:
  "schemas reconcile_store ''t'' = Some reconcile_schema \<and>
   distinct (map fst reconcile_schema) \<and>
   validate_and_prepare_data reconcile_store ''t'' [[''id'' \<mapsto> PInt 7, ''extra'' \<mapsto> PBool True]] =
     Inr [[''id'' \<mapsto> PInt 7, ''name'' \<mapsto> PNone]] \<and>
   [''id'' \<mapsto> PInt 7, ''name'' \<mapsto> PNone] ''created'' = None \<and>
   insert_data reconcile_store ''t'' [[''id'' \<mapsto> PInt 7], [''name'' \<mapsto> PStr ''x'']] 1000 =
     (reconcile_store, Inl (MissingRequiredColumn ''id'' 1))"
proof -
  have s: "schemas reconcile_store ''t'' = Some reconcile_schema"
    by (simp add: reconcile_store_def)
  have d: "distinct (map fst reconcile_schema)"
    by (simp add: reconcile_schema_def)
  note t = reconciliation_against_schema[OF s d,
      of "[[''id'' \<mapsto> PInt 7], [''name'' \<mapsto> PStr ''x'']]" 1000]
  from t[THEN conjunct2, THEN conjunct2, rule_format, OF sample_not_reconciled]
  have "insert_data reconcile_store ''t'' [[''id'' \<mapsto> PInt 7], [''name'' \<mapsto> PStr ''x'']] 1000 =
     (reconcile_store, Inl (MissingRequiredColumn ''id'' 1))"
    by (rule conjunct2)
  with s d sample_reconciled show ?thesis by simp
qed

section \<open>FileProcessor: the loop over the chunks\<close>

lemma insert_calls_append: "insert_calls (xs @ ys) = insert_calls xs @ insert_calls ys"
  by (induction xs rule: insert_calls.induct) simp_all

lemma validate_calls_append: "validate_calls (xs @ ys) = validate_calls xs @ validate_calls ys"
  by (induction xs rule: validate_calls.induct) simp_all


lemma loop_stop:
  "len df \<le> i \<Longrightarrow> process_batches_loop bs df t i tot cr w = (Inr (), cr, w)"
  by (subst process_batches_loop.simps) simp

lemma loop_fail:
  assumes "0 < bs" "i < len df"
    and "insert_data (db w) t (to_dict_records (iloc df i (i + bs))) bs = (st, Inl e)"
  shows "process_batches_loop bs df t i tot cr w =
     (Inl (BatchFailed (i div bs + 1) e), cr\<lparr>current_batch := Some (i div bs + 1)\<rparr>,
      w\<lparr>trace := trace w @ [Commit (cr\<lparr>current_batch := Some (i div bs + 1)\<rparr>),
             InsertCall t (to_dict_records (iloc df i (i + bs)))], db := st\<rparr>)"
  using assms by (subst process_batches_loop.simps) (simp add: commit_def Let_def)

lemma loop_step:
  assumes "0 < bs" "i < len df"
    and "insert_data (db w) t (to_dict_records (iloc df i (i + bs))) bs = (st, Inr u)"
  shows "process_batches_loop bs df t i tot cr w =
     process_batches_loop bs df t (i + bs) (tot + len (iloc df i (i + bs)))
       (cr\<lparr>current_batch := Some (i div bs + 1), loaded_rows := Some (tot + len (iloc df i (i + bs)))\<rparr>)
       (w\<lparr>db := st,
          trace := trace w @ [Commit (cr\<lparr>current_batch := Some (i div bs + 1)\<rparr>),
              InsertCall t (to_dict_records (iloc df i (i + bs))),
              Commit (cr\<lparr>current_batch := Some (i div bs + 1), loaded_rows := Some (tot + len (iloc df i (i + bs)))\<rparr>)]\<rparr>)"
  using assms by (subst process_batches_loop.simps) (simp add: commit_def Let_def)

lemma process_batches_loop_rule:
  assumes inv: "I i tot cr w" and bs: "0 < bs"
    and stop: "\<And>i tot cr w. I i tot cr w \<Longrightarrow> len df \<le> i \<Longrightarrow> Q (Inr (), cr, w)"
    and fail: "\<And>i tot cr w st e. I i tot cr w \<Longrightarrow> i < len df \<Longrightarrow>
       insert_data (db w) t (to_dict_records (iloc df i (i + bs))) bs = (st, Inl e) \<Longrightarrow>
       Q (Inl (BatchFailed (i div bs + 1) e), cr\<lparr>current_batch := Some (i div bs + 1)\<rparr>,
          w\<lparr>trace := trace w @ [Commit (cr\<lparr>current_batch := Some (i div bs + 1)\<rparr>),
                 InsertCall t (to_dict_records (iloc df i (i + bs)))], db := st\<rparr>)"
    and step: "\<And>i tot cr w st u. I i tot cr w \<Longrightarrow> i < len df \<Longrightarrow>
       insert_data (db w) t (to_dict_records (iloc df i (i + bs))) bs = (st, Inr u) \<Longrightarrow>
       I (i + bs) (tot + len (iloc df i (i + bs)))
         (cr\<lparr>current_batch := Some (i div bs + 1), loaded_rows := Some (tot + len (iloc df i (i + bs)))\<rparr>)
         (w\<lparr>db := st,
            trace := trace w @ [Commit (cr\<lparr>current_batch := Some (i div bs + 1)\<rparr>),
                 InsertCall t (to_dict_records (iloc df i (i + bs))),
                 Commit (cr\<lparr>current_batch := Some (i div bs + 1), loaded_rows := Some (tot + len (iloc df i (i + bs)))\<rparr>)]\<rparr>)"
  shows "Q (process_batches_loop bs df t i tot cr w)"
  using inv
proof (induction "len df - i" arbitrary: i tot cr w rule: less_induct)
  case less
  show ?case
  proof (cases "len df \<le> i")
    case True
    from stop[OF less.prems True] show ?thesis by (simp only: loop_stop[OF True])
  next
    case False
    then have lt: "i < len df" by simp
    obtain st r where ins: "insert_data (db w) t (to_dict_records (iloc df i (i + bs))) bs = (st, r)"
      by (cases "insert_data (db w) t (to_dict_records (iloc df i (i + bs))) bs")
    show ?thesis
    proof (cases r)
      case (Inl e)
      from fail[OF less.prems lt ins[unfolded Inl]] show ?thesis
        by (simp only: loop_fail[OF bs lt ins[unfolded Inl]])
    next
      case (Inr u)
      have dec: "len df - (i + bs) < len df - i" using lt bs by simp
      from less.hyps[OF dec step[OF less.prems lt ins[unfolded Inr]]] show ?thesis
        by (simp only: loop_step[OF bs lt ins[unfolded Inr]])
    qed
  qed
qed

subsection \<open>What the loop leaves alone\<close>

lemma execute_batches_static:
  "execute_batches t bs prepared n i pending st = (st', r) \<Longrightarrow>
   schemas st' = schemas st \<and> accepts st' = accepts st \<and> contents st' = contents st"
proof (induction t bs prepared n i pending st arbitrary: st' r rule: execute_batches.induct)
  case (1 t bs prepared n i pending st)
  show ?case
  proof (cases "bs = 0 \<or> n \<le> i")
    case True
    with "1.prems" show ?thesis by (simp add: execute_batches.simps)
  next
    case False
    show ?thesis
    proof (cases "accepts st t (contents st t @ pending) (take bs (drop i prepared))")
      case True
      with False "1.prems" have
        "execute_batches t bs prepared n (i + bs) (pending @ take bs (drop i prepared))
           (st\<lparr>sent := sent st @ [(t, take bs (drop i prepared))]\<rparr>) = (st', r)"
        by (subst (asm) execute_batches.simps) (simp add: Let_def)
      from "1.IH"[OF False refl refl True this] show ?thesis by simp
    next
      case rejected: False
      with False "1.prems" show ?thesis
        by (subst (asm) execute_batches.simps) (auto simp: Let_def)
    qed
  qed
qed

lemma insert_data_static:
  "insert_data st t data bs = (st', r) \<Longrightarrow> schemas st' = schemas st \<and> accepts st' = accepts st"
  by (auto simp: insert_data_def split: if_splits sum.splits prod.splits
      dest: execute_batches_static)

lemma loop_frame:
  assumes "0 < bs" and "process_batches_loop bs df t i tot cr w = (res, cr', w')"
  shows "fs w' = fs w \<and> validate_calls (trace w') = validate_calls (trace w) \<and>
         (\<exists>evs. trace w' = trace w @ evs) \<and> same_but_counters cr' cr"
proof -
  let ?I = "\<lambda>(i::nat) (tot::nat) c v. fs v = fs w \<and> validate_calls (trace v) = validate_calls (trace w) \<and>
              (\<exists>evs. trace v = trace w @ evs) \<and> same_but_counters c cr"
  let ?Q = "\<lambda>(r :: error + unit, c, v). ?I 0 0 c v"
  have "?Q (process_batches_loop bs df t i tot cr w)"
  proof (rule process_batches_loop_rule[where I = ?I and Q = ?Q, OF _ assms(1)])
    show "?I i tot cr w" by (simp add: same_but_counters_def)
  qed (auto simp: validate_calls_append same_but_counters_def)
  with assms(2) show ?thesis by simp
qed


subsection \<open>The ledger when the loop ends\<close>

lemma chunk_count_eq:
  assumes "0 < b" "0 < j" "(j - 1) * b < n" "n \<le> j * b"
  shows "chunk_count b n = j"
proof -
  from assms(2) obtain k where j: "j = Suc k" by (cases j) auto
  with assms have "b * j \<le> n + b - 1" and "n + b - 1 < b * Suc j"
    by (simp_all add: algebra_simps)
  then show ?thesis unfolding chunk_count_def by (rule div_nat_eqI)
qed

lemma len_iloc: "len (iloc df i (i + b)) = min b (len df - i)"
  by (simp add: len_def iloc_def min.commute)

lemma loop_outcome:
  assumes bs: "0 < bs" and run: "process_batches_loop bs df t 0 0 cr w = (res, cr', w')"
  shows "case res of
           Inl e \<Rightarrow>
             (\<exists>n e'. e = BatchFailed n e' \<and> 0 < n \<and> (n - 1) * bs < len df \<and>
                current_batch cr' = Some n \<and>
                loaded_rows cr' = (if n = 1 then loaded_rows cr else Some ((n - 1) * bs)) \<and>
                length (insert_calls (trace w')) = length (insert_calls (trace w)) + n)
         | Inr u \<Rightarrow>
             current_batch cr' =
               (if len df = 0 then current_batch cr else Some (chunk_count bs (len df))) \<and>
             loaded_rows cr' = (if len df = 0 then loaded_rows cr else Some (len df)) \<and>
             length (insert_calls (trace w')) =
               length (insert_calls (trace w)) + chunk_count bs (len df)"
proof -
  let ?I = "\<lambda>i tot c v. \<exists>j. i = j * bs \<and> tot = min i (len df) \<and> (j = 0 \<or> (j - 1) * bs < len df) \<and>
              current_batch c = (if j = 0 then current_batch cr else Some j) \<and>
              loaded_rows c = (if j = 0 then loaded_rows cr else Some tot) \<and>
              length (insert_calls (trace v)) = length (insert_calls (trace w)) + j"
  let ?Q = "\<lambda>(r :: error + unit, c, v). case r of
           Inl e \<Rightarrow>
             (\<exists>n e'. e = BatchFailed n e' \<and> 0 < n \<and> (n - 1) * bs < len df \<and>
                current_batch c = Some n \<and>
                loaded_rows c = (if n = 1 then loaded_rows cr else Some ((n - 1) * bs)) \<and>
                length (insert_calls (trace v)) = length (insert_calls (trace w)) + n)
         | Inr u \<Rightarrow>
             current_batch c =
               (if len df = 0 then current_batch cr else Some (chunk_count bs (len df))) \<and>
             loaded_rows c = (if len df = 0 then loaded_rows cr else Some (len df)) \<and>
             length (insert_calls (trace v)) =
               length (insert_calls (trace w)) + chunk_count bs (len df)"
  have "?Q (process_batches_loop bs df t 0 0 cr w)"
  proof (rule process_batches_loop_rule[where I = ?I and Q = ?Q, OF _ bs])
    show "?I 0 0 cr w" by simp
  next
    fix i tot :: nat and c :: control_record and v :: world
    assume "?I i tot c v" and stop: "len df \<le> i"
    then obtain j where j: "i = j * bs" "tot = min i (len df)" "j = 0 \<or> (j - 1) * bs < len df"
      "current_batch c = (if j = 0 then current_batch cr else Some j)"
      "loaded_rows c = (if j = 0 then loaded_rows cr else Some tot)"
      "length (insert_calls (trace v)) = length (insert_calls (trace w)) + j"
      by blast
    show "?Q (Inr (), c, v)"
    proof (cases "j = 0")
      case True
      with j stop bs show ?thesis by (simp add: chunk_count_def)
    next
      case False
      with j(3) have pos: "0 < j" and lt: "(j - 1) * bs < len df" by simp_all
      then have ne: "len df \<noteq> 0" by simp
      from chunk_count_eq[OF bs pos lt] stop j(1) have "chunk_count bs (len df) = j" by simp
      with j stop False ne show ?thesis by simp
    qed
  next
    fix i tot :: nat and c :: control_record and v :: world and st :: store and e :: error
    assume "?I i tot c v" and lt: "i < len df"
    then obtain j where j: "i = j * bs" "tot = min i (len df)"
      "current_batch c = (if j = 0 then current_batch cr else Some j)"
      "loaded_rows c = (if j = 0 then loaded_rows cr else Some tot)"
      "length (insert_calls (trace v)) = length (insert_calls (trace w)) + j"
      by blast
    from j(1) bs have d: "i div bs = j" by simp
    from j(2) lt have tot: "tot = j * bs" using j(1) by simp
    show "?Q (Inl (BatchFailed (i div bs + 1) e), c\<lparr>current_batch := Some (i div bs + 1)\<rparr>,
          v\<lparr>trace := trace v @ [Commit (c\<lparr>current_batch := Some (i div bs + 1)\<rparr>),
                 InsertCall t (to_dict_records (iloc df i (i + bs)))], db := st\<rparr>)"
      using j(3,4,5) lt tot d j(1) by (simp add: insert_calls_append)
  next
    fix i tot :: nat and c :: control_record and v :: world and st :: store and u :: unit
    assume "?I i tot c v" and lt: "i < len df"
    then obtain j where j: "i = j * bs" "tot = min i (len df)"
      "length (insert_calls (trace v)) = length (insert_calls (trace w)) + j"
      by blast
    from j(1) bs have d: "i div bs = j" by simp
    have "i + bs = Suc j * bs" using j(1) by simp
    moreover have "tot + len (iloc df i (i + bs)) = min (i + bs) (len df)"
      using j(2) lt by (simp add: len_iloc)
    moreover have "(Suc j - 1) * bs < len df" using j(1) lt by simp
    ultimately show "?I (i + bs) (tot + len (iloc df i (i + bs)))
         (c\<lparr>current_batch := Some (i div bs + 1), loaded_rows := Some (tot + len (iloc df i (i + bs)))\<rparr>)
         (v\<lparr>db := st,
            trace := trace v @ [Commit (c\<lparr>current_batch := Some (i div bs + 1)\<rparr>),
                 InsertCall t (to_dict_records (iloc df i (i + bs))),
                 Commit (c\<lparr>current_batch := Some (i div bs + 1), loaded_rows := Some (tot + len (iloc df i (i + bs)))\<rparr>)]\<rparr>)"
      using j(3) d by (intro exI[of _ "Suc j"]) (simp add: insert_calls_append)
  qed
  with run show ?thesis by simp
qed


subsection \<open>The order of the values of current\_batch\<close>





section \<open>FileProcessor: one attempt\<close>

lemma process_file_outcome [consumes 1, case_names read_failed validation_raised rejected
    load_failed archive_failed archived]:
  assumes run: "process_file env w p pc = (cr', w')"
  obtains
    e where "read_input env w p pc = Inl e"
      and "handle_error env p (basename p) (in_progress_record env p pc) e
             (started_world env w p pc) = (cr', w')"
  | df e where "read_input env w p pc = Inr df"
      and "validate_data env (db w) df (table pc) = Inl e"
      and "handle_error env p (basename p) (counted_record env p pc df) e
             (validating_world env w p pc df) = (cr', w')"
  | df res where "read_input env w p pc = Inr df"
      and "validate_data env (db w) df (table pc) = Inr res" and "\<not> is_valid res"
      and "handle_error env p (basename p) (counted_record env p pc df)
             (DataValidationFailed (errors res)) (validating_world env w p pc df) = (cr', w')"
  | df res e cr2 w4 where "read_input env w p pc = Inr df"
      and "validate_data env (db w) df (table pc) = Inr res" and "is_valid res"
      and "process_batches (add_metadata_columns df (new_uuid env)) (table pc)
             (counted_record env p pc df) (validating_world env w p pc df) = (Inl e, cr2, w4)"
      and "handle_error env p (basename p) cr2 e w4 = (cr', w')"
  | df res cr2 w4 e where "read_input env w p pc = Inr df"
      and "validate_data env (db w) df (table pc) = Inr res" and "is_valid res"
      and "process_batches (add_metadata_columns df (new_uuid env)) (table pc)
             (counted_record env p pc df) (validating_world env w p pc df) = (Inr (), cr2, w4)"
      and "move_file (fs w4) p (archive_path env (basename p)) = Inl e"
      and "handle_error env p (basename p) cr2 e w4 = (cr', w')"
  | df res cr2 w4 fs' where "read_input env w p pc = Inr df"
      and "validate_data env (db w) df (table pc) = Inr res" and "is_valid res"
      and "process_batches (add_metadata_columns df (new_uuid env)) (table pc)
             (counted_record env p pc df) (validating_world env w p pc df) = (Inr (), cr2, w4)"
      and "move_file (fs w4) p (archive_path env (basename p)) = Inr fs'"
      and "cr' = cr2\<lparr>status := ''SUCCESS'', file_location := ''ARCHIVE''\<rparr>"
      and "w' = w4\<lparr>fs := fs', trace := trace w4 @ [Moved p (archive_path env (basename p)),
                     Commit (cr2\<lparr>status := ''SUCCESS'', file_location := ''ARCHIVE''\<rparr>)]\<rparr>"
proof -
  have pid: "process_id (counted_record env p pc df) = new_uuid env" for df
    by (simp add: counted_record_def in_progress_record_def new_control_record_def)
  have dbv: "db (validating_world env w p pc df) = db w" for df
    by (simp add: validating_world_def started_world_def commit_def)
  have fsv: "fs (started_world env w p pc) = fs w"
    by (simp add: started_world_def commit_def)
  have content: "process_file_content env p pc (in_progress_record env p pc) (started_world env w p pc) =
     (case read_input env w p pc of
        Inl e \<Rightarrow> (Inl e, in_progress_record env p pc, started_world env w p pc)
      | Inr df \<Rightarrow>
          (case validate_data env (db w) df (table pc) of
             Inl e \<Rightarrow> (Inl e, counted_record env p pc df, validating_world env w p pc df)
           | Inr res \<Rightarrow>
               if \<not> is_valid res
               then (Inl (DataValidationFailed (errors res)), counted_record env p pc df,
                     validating_world env w p pc df)
               else process_batches (add_metadata_columns df (new_uuid env)) (table pc)
                      (counted_record env p pc df) (validating_world env w p pc df)))"
    unfolding process_file_content_def read_input_def Let_def fsv
    by (simp add: counted_record_def[symmetric] validating_world_def[symmetric] dbv pid
        split: sum.splits)
  have whole: "process_file env w p pc =
     (case process_file_content env p pc (in_progress_record env p pc) (started_world env w p pc) of
        (Inl e, cr2, w3) \<Rightarrow> handle_error env p (basename p) cr2 e w3
      | (Inr u, cr2, w3) \<Rightarrow>
          (case archive_file env p (basename p) cr2 w3 of
             (Inl e, cr3, w4) \<Rightarrow> handle_error env p (basename p) cr3 e w4
           | (Inr u', cr3, w4) \<Rightarrow> (cr3, w4)))"
    by (simp add: process_file_def Let_def in_progress_record_def started_world_def)
  show thesis
  proof (cases "read_input env w p pc")
    case (Inl e)
    with run whole content that(1) show thesis by simp
  next
    case df: (Inr df)
    show thesis
    proof (cases "validate_data env (db w) df (table pc)")
      case (Inl e)
      with run whole content df that(2) show thesis by simp
    next
      case res: (Inr res)
      show thesis
      proof (cases "is_valid res")
        case False
        with run whole content df res that(3) show thesis by simp
      next
        case True
        obtain r cr2 w4 where load: "process_batches (add_metadata_columns df (new_uuid env)) (table pc)
             (counted_record env p pc df) (validating_world env w p pc df) = (r, cr2, w4)"
          by (cases "process_batches (add_metadata_columns df (new_uuid env)) (table pc)
             (counted_record env p pc df) (validating_world env w p pc df)") auto
        show thesis
        proof (cases r)
          case (Inl e)
          with run whole content df res True load that(4) show thesis by simp
        next
          case (Inr u)
          show thesis
          proof (cases "move_file (fs w4) p (archive_path env (basename p))")
            case (Inl e)
            with run whole content df res True load Inr that(5)[OF df res True _ Inl] show thesis
              by (simp add: archive_file_def)
          next
            case moved: (Inr fs')
            with run whole content df res True load Inr
            have "cr' = cr2\<lparr>status := ''SUCCESS'', file_location := ''ARCHIVE''\<rparr>"
              and "w' = w4\<lparr>fs := fs', trace := trace w4 @ [Moved p (archive_path env (basename p)),
                     Commit (cr2\<lparr>status := ''SUCCESS'', file_location := ''ARCHIVE''\<rparr>)]\<rparr>"
              by (auto simp: archive_file_def Let_def commit_def)
            with load Inr that(6)[OF df res True _ moved] show thesis by simp
          qed
        qed
      qed
    qed
  qed
qed

subsection \<open>The states of an attempt\<close>

lemma started_world_simps:
  "fs (started_world env w p pc) = fs w"
  "db (started_world env w p pc) = db w"
  "trace (started_world env w p pc) =
     trace w @ [Commit (new_control_record env p pc), Commit (in_progress_record env p pc)]"
  by (simp_all add: started_world_def commit_def)

lemma validating_world_simps:
  "fs (validating_world env w p pc df) = fs w"
  "db (validating_world env w p pc df) = db w"
  "trace (validating_world env w p pc df) =
     trace w @ [Commit (new_control_record env p pc), Commit (in_progress_record env p pc),
                Commit (counted_record env p pc df), ValidateCall df (table pc)]"
  by (simp_all add: validating_world_def started_world_def commit_def)

lemma fresh_record_simps:
  "current_batch (in_progress_record env p pc) = None"
  "loaded_rows (in_progress_record env p pc) = None"
  "current_batch (counted_record env p pc df) = None"
  "loaded_rows (counted_record env p pc df) = None"
  "total_rows (counted_record env p pc df) = Some (len df)"
  "current_batch (new_control_record env p pc) = None"
  by (simp_all add: counted_record_def in_progress_record_def new_control_record_def)

lemma handle_error_record:
  assumes "handle_error env p name cr e w = (cr', w')"
  shows "status cr' = ''ERROR''" and "error_message cr' = Some e"
    and "current_batch cr' = current_batch cr" and "loaded_rows cr' = loaded_rows cr"
    and "total_rows cr' = total_rows cr"
  using assms by (auto simp: handle_error_def Let_def commit_def split: sum.splits)

lemma handle_error_world:
  assumes "handle_error env p name cr e w = (cr', w')"
  shows "db w' = db w" and "validate_calls (trace w') = validate_calls (trace w)"
    and "insert_calls (trace w') = insert_calls (trace w)"
    and "\<exists>evs. trace w' = trace w @ evs"
  using assms
  by (auto simp: handle_error_def Let_def commit_def validate_calls_append insert_calls_append
      split: sum.splits)



lemma batch_size_pos: "0 < batch_size"
  by (simp add: batch_size_def)

lemma len_add_metadata_columns: "len (add_metadata_columns df pid) = len df"
  by (simp add: add_metadata_columns_def len_def)

text \<open>
  Claim C3. In an attempt (observed from an empty trace) the validator is called at most
  once. When the file is read, it is called exactly once, on the frame that was read,
  and no call of \<^verbatim>\<open>insert_data\<close> comes before that call; when it then raises or reports
  \<^verbatim>\<open>is_valid = False\<close>, the attempt makes no call of \<^verbatim>\<open>insert_data\<close> at all, leaves the
  store as it was and ends with status \<^verbatim>\<open>ERROR\<close> and no loaded row. When the file cannot
  be read there is no frame: the validator is not called and nothing is loaded.
\<close>

theorem validation_gate_before_load:
  assumes "trace w = []" and "process_file env w p pc = (cr', w')"
  shows "length (validate_calls (trace w')) \<le> 1 \<and>
         (\<forall>df. read_input env w p pc = Inr df \<longrightarrow>
            validate_calls (trace w') = [(df, table pc)] \<and>
            (\<exists>pre post. trace w' = pre @ ValidateCall df (table pc) # post \<and>
                          insert_calls pre = []) \<and>
            ((\<forall>res. validate_data env (db w) df (table pc) = Inr res \<longrightarrow> \<not> is_valid res) \<longrightarrow>
               insert_calls (trace w') = [] \<and> db w' = db w \<and> status cr' = ''ERROR'' \<and>
               loaded_rows cr' = None)) \<and>
         ((\<forall>df. read_input env w p pc \<noteq> Inr df) \<longrightarrow>
            validate_calls (trace w') = [] \<and> insert_calls (trace w') = [] \<and> db w' = db w)"
  using assms(2)
proof (cases rule: process_file_outcome)
  case (read_failed e)
  from handle_error_world[OF read_failed(2)] read_failed(1) assms(1) show ?thesis
    by (simp add: started_world_simps)
next
  case (validation_raised df e)
  let ?pre = "[Commit (new_control_record env p pc), Commit (in_progress_record env p pc),
                Commit (counted_record env p pc df)]"
  from handle_error_world(4)[OF validation_raised(3)] obtain evs where
    "trace w' = trace (validating_world env w p pc df) @ evs" ..
  then have "trace w' = ?pre @ ValidateCall df (table pc) # evs \<and> insert_calls ?pre = []"
    using assms(1) by (simp add: validating_world_simps)
  then have split: "\<exists>pre post. trace w' = pre @ ValidateCall df (table pc) # post \<and>
                          insert_calls pre = []" by blast
  from handle_error_world(1,2,3)[OF validation_raised(3)] handle_error_record[OF validation_raised(3)]
    validation_raised(1) assms(1) split
  show ?thesis by (simp add: validating_world_simps fresh_record_simps)
next
  case (rejected df res)
  let ?pre = "[Commit (new_control_record env p pc), Commit (in_progress_record env p pc),
                Commit (counted_record env p pc df)]"
  from handle_error_world(4)[OF rejected(4)] obtain evs where
    "trace w' = trace (validating_world env w p pc df) @ evs" ..
  then have "trace w' = ?pre @ ValidateCall df (table pc) # evs \<and> insert_calls ?pre = []"
    using assms(1) by (simp add: validating_world_simps)
  then have split: "\<exists>pre post. trace w' = pre @ ValidateCall df (table pc) # post \<and>
                          insert_calls pre = []" by blast
  from handle_error_world(1,2,3)[OF rejected(4)] handle_error_record[OF rejected(4)]
    rejected(1) assms(1) split
  show ?thesis by (simp add: validating_world_simps fresh_record_simps)
next
  case (load_failed df res e cr2 w4)
  let ?pre = "[Commit (new_control_record env p pc), Commit (in_progress_record env p pc),
                Commit (counted_record env p pc df)]"
  note frame = loop_frame[OF batch_size_pos load_failed(4)[unfolded process_batches_def]]
  from frame obtain evs where "trace w4 = trace (validating_world env w p pc df) @ evs" by blast
  moreover from handle_error_world(4)[OF load_failed(5)] obtain evs' where
    "trace w' = trace w4 @ evs'" ..
  ultimately have "trace w' = ?pre @ ValidateCall df (table pc) # (evs @ evs') \<and> insert_calls ?pre = []"
    using assms(1) by (simp add: validating_world_simps)
  then have split: "\<exists>pre post. trace w' = pre @ ValidateCall df (table pc) # post \<and>
                          insert_calls pre = []" by blast
  from frame handle_error_world(2)[OF load_failed(5)] assms(1)
  have "validate_calls (trace w') = [(df, table pc)]" by (simp add: validating_world_simps)
  with load_failed(1,2,3) split show ?thesis by simp
next
  case (archive_failed df res cr2 w4 e)
  let ?pre = "[Commit (new_control_record env p pc), Commit (in_progress_record env p pc),
                Commit (counted_record env p pc df)]"
  note frame = loop_frame[OF batch_size_pos archive_failed(4)[unfolded process_batches_def]]
  from frame obtain evs where "trace w4 = trace (validating_world env w p pc df) @ evs" by blast
  moreover from handle_error_world(4)[OF archive_failed(6)] obtain evs' where
    "trace w' = trace w4 @ evs'" ..
  ultimately have "trace w' = ?pre @ ValidateCall df (table pc) # (evs @ evs') \<and> insert_calls ?pre = []"
    using assms(1) by (simp add: validating_world_simps)
  then have split: "\<exists>pre post. trace w' = pre @ ValidateCall df (table pc) # post \<and>
                          insert_calls pre = []" by blast
  from frame handle_error_world(2)[OF archive_failed(6)] assms(1)
  have "validate_calls (trace w') = [(df, table pc)]" by (simp add: validating_world_simps)
  with archive_failed(1,2,3) split show ?thesis by simp
next
  case (archived df res cr2 w4 fs')
  let ?pre = "[Commit (new_control_record env p pc), Commit (in_progress_record env p pc),
                Commit (counted_record env p pc df)]"
  note frame = loop_frame[OF batch_size_pos archived(4)[unfolded process_batches_def]]
  from frame obtain evs where "trace w4 = trace (validating_world env w p pc df) @ evs" by blast
  with archived(7) have "trace w' = ?pre @ ValidateCall df (table pc) #
      (evs @ [Moved p (archive_path env (basename p)),
              Commit (cr2\<lparr>status := ''SUCCESS'', file_location := ''ARCHIVE''\<rparr>)]) \<and>
      insert_calls ?pre = []"
    using assms(1) by (simp add: validating_world_simps)
  then have split: "\<exists>pre post. trace w' = pre @ ValidateCall df (table pc) # post \<and>
                          insert_calls pre = []" by blast
  from frame archived(7) assms(1)
  have "validate_calls (trace w') = [(df, table pc)]"
    by (simp add: validating_world_simps validate_calls_append)
  with archived(1,2,3) split show ?thesis by simp
qed

subsection \<open>Running the example inputs\<close>

lemmas sample_defs = sample_env_def sample_world_def sample_pattern_def sample_store_def
  sample_schema_def sample_read_csv_def sample_runtime_def

lemma sample_path: "file_type_of ''/in/a.csv'' = ''csv''" "basename ''/in/a.csv'' = ''a.csv''"
  by (simp_all add: file_type_of_def basename_def py_lower_def lower_char_def)

lemma sample_paths:
  "archive_path sample_env ''a.csv'' = ''/archive/20240101_a.csv''"
  "error_path sample_env ''a.csv'' = ''/error/20240101_a.csv''"
  by (simp_all add: archive_path_def error_path_def path_join_def sample_env_def)

lemma read_rejected:
  "read_input sample_env (sample_world [[''id'', ''name''], [''x'', ''x'']]) ''/in/a.csv'' sample_pattern =
     Inr rejected_frame"
  by (simp add: read_input_def read_file_def sample_path sample_defs rejected_frame_def)

lemma validate_rejected:
  "validate_data sample_env sample_store rejected_frame ''t'' =
     Inr \<lparr>is_valid = False, errors = [NonNumeric ''id'' [0]]\<rparr>"
  by (simp add: validate_data_def get_table_columns_def sample_defs rejected_frame_def len_def
      isnull_def cell_def startswith_def rows_where_def matches_digits_def is_digit_def
      astype_str_def add_error_def varchar_max_length_def Let_def)

text \<open>
  The witness of C3: a file whose \<^verbatim>\<open>id\<close> is not numeric is read, the validator is called
  once on its frame and rejects it, and the attempt ends in \<^verbatim>\<open>ERROR\<close> with no call of
  \<^verbatim>\<open>insert_data\<close> and the store as it was.
\<close>

theorem validation_gate_before_load_witness:
  "trace (sample_world [[''id'', ''name''], [''x'', ''x'']]) = [] \<and>
   read_input sample_env (sample_world [[''id'', ''name''], [''x'', ''x'']]) ''/in/a.csv'' sample_pattern =
     Inr rejected_frame \<and>
   validate_data sample_env sample_store rejected_frame ''t'' =
     Inr \<lparr>is_valid = False, errors = [NonNumeric ''id'' [0]]\<rparr> \<and>
   validate_calls (trace (snd (process_file sample_env
      (sample_world [[''id'', ''name''], [''x'', ''x'']]) ''/in/a.csv'' sample_pattern))) =
     [(rejected_frame, ''t'')] \<and>
   insert_calls (trace (snd (process_file sample_env
      (sample_world [[''id'', ''name''], [''x'', ''x'']]) ''/in/a.csv'' sample_pattern))) = [] \<and>
   db (snd (process_file sample_env
      (sample_world [[''id'', ''name''], [''x'', ''x'']]) ''/in/a.csv'' sample_pattern)) = sample_store \<and>
   status (fst (process_file sample_env
      (sample_world [[''id'', ''name''], [''x'', ''x'']]) ''/in/a.csv'' sample_pattern)) = ''ERROR''"
proof -
  let ?w = "sample_world [[''id'', ''name''], [''x'', ''x'']]"
  let ?run = "process_file sample_env ?w ''/in/a.csv'' sample_pattern"
  have t: "trace ?w = []" and d: "db ?w = sample_store" and tb: "table sample_pattern = ''t''"
    by (simp_all add: sample_world_def sample_pattern_def)
  have r: "?run = (fst ?run, snd ?run)" by simp
  note gate = validation_gate_before_load[OF t r, THEN conjunct2, THEN conjunct1, rule_format,
      OF read_rejected]
  from gate have calls: "validate_calls (trace (snd ?run)) = [(rejected_frame, table sample_pattern)]"
    by (rule conjunct1)
  have no: "\<not> is_valid res"
    if "validate_data sample_env (db ?w) rejected_frame (table sample_pattern) = Inr res" for res
    using that validate_rejected d tb by auto
  from gate[THEN conjunct2, THEN conjunct2, rule_format, OF no]
  have "insert_calls (trace (snd ?run)) = [] \<and> db (snd ?run) = db ?w \<and> status (fst ?run) = ''ERROR'' \<and>
        loaded_rows (fst ?run) = None" .
  with t d tb calls read_rejected validate_rejected show ?thesis by simp
qed

subsection \<open>The counters of the ledger\<close>





lemmas pipeline_defs = process_file_def new_control_record_def commit_def
  process_file_content_def read_file_def validate_data_def get_table_columns_def
  add_metadata_columns_def process_batches_def archive_file_def handle_error_def move_file_def
  len_def Let_def batch_size_def

lemmas validator_defs = isnull_def cell_def startswith_def rows_where_def matches_digits_def
  is_digit_def astype_str_def add_error_def varchar_max_length_def

lemmas store_defs = insert_data_def validate_and_prepare_data_def to_dict_records_def iloc_def
  execute_batches.simps[of _ _ _ _ 0] execute_batches.simps[of _ _ _ _ 1000]

lemmas loop_unfold = process_batches_loop.simps[of _ _ _ 0] process_batches_loop.simps[of _ _ _ 1000]




subsection \<open>The ledger of a successful attempt\<close>

lemma successful_attempt:
  assumes "process_file env w p pc = (cr', w')" and "status cr' = ''SUCCESS''"
  shows "\<exists>df c evs. read_input env w p pc = Inr df \<and> total_rows cr' = Some (len df) \<and>
           loaded_rows cr' = (if len df = 0 then None else Some (len df)) \<and>
           file_location cr' = ''ARCHIVE'' \<and> fs w p = Some c \<and>
           fs w' (archive_path env (basename p)) = Some c \<and>
           trace w' = evs @ [Moved p (archive_path env (basename p)), Commit cr']"
  using assms(1)
proof (cases rule: process_file_outcome)
  case (read_failed e)
  from handle_error_record(1)[OF read_failed(2)] assms(2) show ?thesis by simp
next
  case (validation_raised df e)
  from handle_error_record(1)[OF validation_raised(3)] assms(2) show ?thesis by simp
next
  case (rejected df res)
  from handle_error_record(1)[OF rejected(4)] assms(2) show ?thesis by simp
next
  case (load_failed df res e cr2 w4)
  from handle_error_record(1)[OF load_failed(5)] assms(2) show ?thesis by simp
next
  case (archive_failed df res cr2 w4 e)
  from handle_error_record(1)[OF archive_failed(6)] assms(2) show ?thesis by simp
next
  case (archived df res cr2 w4 fs')
  note frame = loop_frame[OF batch_size_pos archived(4)[unfolded process_batches_def]]
  note outcome = loop_outcome[OF batch_size_pos archived(4)[unfolded process_batches_def]]
  from frame have fs4: "fs w4 = fs w" by (simp add: validating_world_simps)
  from frame have "total_rows cr2 = Some (len df)"
    by (simp add: same_but_counters_def fresh_record_simps)
  moreover from outcome have "loaded_rows cr2 = (if len df = 0 then None else Some (len df))"
    by (simp add: len_add_metadata_columns fresh_record_simps)
  moreover from archived(5) fs4 obtain c where "fs w p = Some c"
    "fs' (archive_path env (basename p)) = Some c"
    by (auto simp: move_file_def split: option.splits)
  ultimately show ?thesis using archived(1,6,7) by auto
qed

text \<open>
  Claim C2 on the code: a file with a header and no data row. The frame has no row, the
  loop of \<^verbatim>\<open>_process_batches\<close> makes no pass and never assigns \<^verbatim>\<open>loaded_rows\<close>; the file is
  archived and the record is closed as \<^verbatim>\<open>SUCCESS\<close> with \<^verbatim>\<open>total_rows = 0\<close> and \<^verbatim>\<open>loaded_rows\<close>
  unset, so the two are not equal.
\<close>

theorem header_only_file_leaves_loaded_rows_unset:
  "status (fst (process_file sample_env (sample_world [[''id'', ''name'']])
      ''/in/a.csv'' sample_pattern)) = ''SUCCESS'' \<and>
   file_location (fst (process_file sample_env (sample_world [[''id'', ''name'']])
      ''/in/a.csv'' sample_pattern)) = ''ARCHIVE'' \<and>
   total_rows (fst (process_file sample_env (sample_world [[''id'', ''name'']])
      ''/in/a.csv'' sample_pattern)) = Some 0 \<and>
   loaded_rows (fst (process_file sample_env (sample_world [[''id'', ''name'']])
      ''/in/a.csv'' sample_pattern)) = None \<and>
   loaded_rows (fst (process_file sample_env (sample_world [[''id'', ''name'']])
      ''/in/a.csv'' sample_pattern)) \<noteq>
   total_rows (fst (process_file sample_env (sample_world [[''id'', ''name'']])
      ''/in/a.csv'' sample_pattern))"
  by (simp add: pipeline_defs validator_defs store_defs loop_unfold sample_defs sample_path
      sample_paths)

subsection \<open>A chunk that fails after a chunk that was committed\<close>

lemma process_batches_failure:
  assumes "process_batches df t cr w = (Inl err, cr', w')"
  shows "\<exists>n e. err = BatchFailed n e \<and> 0 < n \<and> (n - 1) * batch_size < len df \<and>
           current_batch cr' = Some n \<and>
           loaded_rows cr' = (if n = 1 then loaded_rows cr else Some ((n - 1) * batch_size)) \<and>
           length (insert_calls (trace w')) = length (insert_calls (trace w)) + n"
  using loop_outcome[OF batch_size_pos assms[unfolded process_batches_def]] by simp

lemma prepare_records_replicate:
  assumes "\<And>k. prepare_record columns k r Map.empty = Inr q"
  shows "prepare_records columns idx (replicate n r) acc = Inr (acc @ replicate n q)"
proof (induction n arbitrary: idx acc)
  case 0
  then show ?case by simp
next
  case (Suc n)
  have "prepare_records columns idx (replicate (Suc n) r) acc =
          prepare_records columns (Suc idx) (replicate n r) (acc @ [q])"
    by (simp add: assms)
  also have "\<dots> = Inr ((acc @ [q]) @ replicate n q)" by (rule Suc.IH)
  finally show ?case by simp
qed

lemma validate_and_prepare_length:
  "validate_and_prepare_data st t data = Inr prepared \<Longrightarrow> length prepared = length data"
  by (auto simp: validate_and_prepare_data_def split: if_splits sum.splits
      dest!: prepare_records_ok)

lemma insert_data_single_batch:
  assumes "data \<noteq> []" and prep: "validate_and_prepare_data st t data = Inr prepared"
    and "0 < bs" and "length data \<le> bs"
  shows "insert_data st t data bs =
           (if accepts st t (contents st t) prepared
            then (st\<lparr>sent := sent st @ [(t, prepared)],
                     contents := (contents st)(t := contents st t @ prepared)\<rparr>, Inr ())
            else (st\<lparr>sent := sent st @ [(t, prepared)]\<rparr>, Inl (StoreRejected t)))"
proof -
  from validate_and_prepare_length[OF prep] assms(4) have whole: "take bs prepared = prepared"
    by simp
  from assms(1,3) have start: "\<not> (bs = 0 \<or> length data \<le> 0)" by simp
  have stop: "execute_batches t bs prepared (length data) bs pending st' = (st', Inr pending)"
    for pending st'
    using assms(4) by (subst execute_batches.simps) simp
  have "execute_batches t bs prepared (length data) 0 [] st =
          (if accepts st t (contents st t) prepared
           then (st\<lparr>sent := sent st @ [(t, prepared)]\<rparr>, Inr prepared)
           else (st\<lparr>sent := sent st @ [(t, prepared)]\<rparr>, Inl (StoreRejected t)))"
    using start by (subst execute_batches.simps) (simp add: Let_def whole stop)
  with assms(1,3) prep show ?thesis by (simp add: insert_data_def)
qed

lemma strict_store_simps:
  "schemas strict_store = [''t'' \<mapsto> sample_schema]"
  "contents strict_store = (\<lambda>t. [])"
  "sent strict_store = []"
  "accepts strict_store = (\<lambda>t existing batch. list_all (\<lambda>r. r ''id'' \<noteq> Some (PStr ''13'')) batch)"
  by (simp_all add: strict_store_def sample_store_def)

lemma first_chunk:
  "to_dict_records (iloc two_chunk_frame 0 (0 + batch_size)) =
     replicate batch_size (\<lambda>c. if c = ''id'' then Some (PStr ''7'') else None)"
  by (simp add: to_dict_records_def iloc_def two_chunk_frame_def cell_def fun_eq_iff)

lemma second_chunk:
  "to_dict_records (iloc two_chunk_frame batch_size (batch_size + batch_size)) =
     [\<lambda>c. if c = ''id'' then Some (PStr ''13'') else None]"
  using batch_size_pos
  by (cases batch_size)
     (simp_all add: to_dict_records_def iloc_def two_chunk_frame_def cell_def fun_eq_iff)

lemma prepare_good:
  "prepare_record sample_schema k (\<lambda>c. if c = ''id'' then Some (PStr ''7'') else None) Map.empty =
     Inr [''id'' \<mapsto> PStr ''7'', ''name'' \<mapsto> PNone, ''load_batch_no'' \<mapsto> PNone]"
  by (simp add: sample_schema_def)

lemma prepare_bad:
  "prepare_record sample_schema k (\<lambda>c. if c = ''id'' then Some (PStr ''13'') else None) Map.empty =
     Inr [''id'' \<mapsto> PStr ''13'', ''name'' \<mapsto> PNone, ''load_batch_no'' \<mapsto> PNone]"
  by (simp add: sample_schema_def)

lemma insert_first_chunk:
  "insert_data strict_store ''t''
     (replicate batch_size (\<lambda>c. if c = ''id'' then Some (PStr ''7'') else None)) batch_size =
   (strict_store
      \<lparr>sent := [(''t'', replicate batch_size
                  [''id'' \<mapsto> PStr ''7'', ''name'' \<mapsto> PNone, ''load_batch_no'' \<mapsto> PNone])],
       contents := (\<lambda>t. [])(''t'' := replicate batch_size
                  [''id'' \<mapsto> PStr ''7'', ''name'' \<mapsto> PNone, ''load_batch_no'' \<mapsto> PNone])\<rparr>,
    Inr ())"
proof -
  let ?data = "replicate batch_size (\<lambda>c. if c = ''id'' then Some (PStr ''7'') else None)"
  let ?prepared = "replicate batch_size
                  [''id'' \<mapsto> PStr ''7'', ''name'' \<mapsto> PNone, ''load_batch_no'' \<mapsto> PNone]"
  have ne: "?data \<noteq> []" using batch_size_pos by simp
  have "prepare_records sample_schema 0 ?data [] = Inr ([] @ ?prepared)"
    by (rule prepare_records_replicate) (rule prepare_good)
  with ne have prep: "validate_and_prepare_data strict_store ''t'' ?data = Inr ?prepared"
    by (simp add: validate_and_prepare_data_def get_table_columns_def strict_store_simps)
  have ok: "accepts strict_store ''t'' (contents strict_store ''t'') ?prepared"
    by (simp add: strict_store_simps list_all_iff)
  from insert_data_single_batch[OF ne prep batch_size_pos] ok show ?thesis
    by (simp add: strict_store_simps)
qed

text \<open>
  Claim C1 on the code: a frame of 1001 rows whose first chunk (rows 0 to 999) the store
  commits and whose second chunk (row 1000) it refuses. \<^verbatim>\<open>_process_batches\<close> raises
  "Error processing batch 2" and makes no further call of \<^verbatim>\<open>insert_data\<close>; the 1000 rows
  of chunk 1 are in the table and \<^verbatim>\<open>loaded_rows\<close> is 1000, but \<^verbatim>\<open>current_batch\<close> is 2, the
  number of the chunk that failed, because it is written and committed before the insert
  is tried; the claim says 1, the number of the last chunk that was committed.
\<close>

theorem failed_chunk_is_recorded_as_current_batch:
  "len two_chunk_frame = 1001 \<and>
   fst (process_batches two_chunk_frame ''t'' fresh_record strict_world) =
     Inl (BatchFailed 2 (StoreRejected ''t'')) \<and>
   length (insert_calls (trace (snd (snd
     (process_batches two_chunk_frame ''t'' fresh_record strict_world))))) = 2 \<and>
   length (contents (db (snd (snd
     (process_batches two_chunk_frame ''t'' fresh_record strict_world)))) ''t'') = 1000 \<and>
   loaded_rows (fst (snd (process_batches two_chunk_frame ''t'' fresh_record strict_world))) =
     Some 1000 \<and>
   current_batch (fst (snd (process_batches two_chunk_frame ''t'' fresh_record strict_world))) =
     Some 2"
proof -
  let ?good = "[''id'' \<mapsto> PStr ''7'', ''name'' \<mapsto> PNone, ''load_batch_no'' \<mapsto> PNone]"
  let ?bad = "[''id'' \<mapsto> PStr ''13'', ''name'' \<mapsto> PNone, ''load_batch_no'' \<mapsto> PNone]"
  define st1 where "st1 = strict_store
      \<lparr>sent := [(''t'', replicate batch_size ?good)],
       contents := (\<lambda>t. [])(''t'' := replicate batch_size ?good)\<rparr>"
  define cr1 where "cr1 = fresh_record\<lparr>current_batch := Some (0 div batch_size + 1)\<rparr>"
  define cr2 where "cr2 = fresh_record\<lparr>current_batch := Some (0 div batch_size + 1),
      loaded_rows := Some (0 + len (iloc two_chunk_frame 0 (0 + batch_size)))\<rparr>"
  define w2 where "w2 = strict_world\<lparr>db := st1,
      trace := trace strict_world @
        [Commit cr1, InsertCall ''t'' (to_dict_records (iloc two_chunk_frame 0 (0 + batch_size))),
         Commit cr2]\<rparr>"
  have n: "len two_chunk_frame = batch_size + 1"
    by (simp add: len_def two_chunk_frame_def)
  have lt0: "0 < len two_chunk_frame" and lt1: "0 + batch_size < len two_chunk_frame"
    using n by simp_all
  have ins1: "insert_data (db strict_world) ''t''
      (to_dict_records (iloc two_chunk_frame 0 (0 + batch_size))) batch_size = (st1, Inr ())"
    unfolding first_chunk st1_def by (simp add: strict_world_def insert_first_chunk)
  have step: "process_batches_loop batch_size two_chunk_frame ''t'' 0 0 fresh_record strict_world =
      process_batches_loop batch_size two_chunk_frame ''t'' (0 + batch_size)
        (0 + len (iloc two_chunk_frame 0 (0 + batch_size))) cr2 w2"
    unfolding cr1_def cr2_def w2_def by (rule loop_step[OF batch_size_pos lt0 ins1])
  have st1: "schemas st1 = [''t'' \<mapsto> sample_schema]" "contents st1 ''t'' = replicate batch_size ?good"
    "accepts st1 = accepts strict_store"
    by (simp_all add: st1_def strict_store_simps)
  have db2: "db w2 = st1" by (simp add: w2_def)
  have chunk2: "to_dict_records (iloc two_chunk_frame (0 + batch_size) (0 + batch_size + batch_size)) =
      [\<lambda>c. if c = ''id'' then Some (PStr ''13'') else None]"
    using second_chunk by simp
  have prep2: "validate_and_prepare_data st1 ''t'' [\<lambda>c. if c = ''id'' then Some (PStr ''13'') else None] =
      Inr [?bad]"
    by (simp add: validate_and_prepare_data_def get_table_columns_def st1 prepare_bad)
  have one: "length [\<lambda>c. if c = ''id'' then Some (PStr ''13'') else None] \<le> batch_size"
    using batch_size_pos by simp
  have ins2: "insert_data (db w2) ''t''
      (to_dict_records (iloc two_chunk_frame (0 + batch_size) (0 + batch_size + batch_size)))
      batch_size = (st1\<lparr>sent := sent st1 @ [(''t'', [?bad])]\<rparr>, Inl (StoreRejected ''t''))"
    unfolding chunk2 db2
    using insert_data_single_batch[OF _ prep2 batch_size_pos one]
    by (simp add: st1(3) strict_store_simps)
  note fail = loop_fail[OF batch_size_pos lt1 ins2,
      of "0 + len (iloc two_chunk_frame 0 (0 + batch_size))" cr2]
  have run: "process_batches two_chunk_frame ''t'' fresh_record strict_world =
      (Inl (BatchFailed ((0 + batch_size) div batch_size + 1) (StoreRejected ''t'')),
       cr2\<lparr>current_batch := Some ((0 + batch_size) div batch_size + 1)\<rparr>,
       w2\<lparr>trace := trace w2 @
              [Commit (cr2\<lparr>current_batch := Some ((0 + batch_size) div batch_size + 1)\<rparr>),
               InsertCall ''t'' (to_dict_records
                 (iloc two_chunk_frame (0 + batch_size) (0 + batch_size + batch_size)))],
           db := st1\<lparr>sent := sent st1 @ [(''t'', [?bad])]\<rparr>\<rparr>)"
    unfolding process_batches_def step by (rule fail)
  have two: "batch_size div batch_size = Suc 0" using batch_size_pos by simp
  have loaded: "len (iloc two_chunk_frame 0 batch_size) = batch_size"
    using n len_iloc[of two_chunk_frame 0 batch_size] by simp
  have "len two_chunk_frame = batch_size + 1 \<and>
   fst (process_batches two_chunk_frame ''t'' fresh_record strict_world) =
     Inl (BatchFailed 2 (StoreRejected ''t'')) \<and>
   length (insert_calls (trace (snd (snd
     (process_batches two_chunk_frame ''t'' fresh_record strict_world))))) = 2 \<and>
   length (contents (db (snd (snd
     (process_batches two_chunk_frame ''t'' fresh_record strict_world)))) ''t'') = batch_size \<and>
   loaded_rows (fst (snd (process_batches two_chunk_frame ''t'' fresh_record strict_world))) =
     Some batch_size \<and>
   current_batch (fst (snd (process_batches two_chunk_frame ''t'' fresh_record strict_world))) =
     Some 2"
    unfolding run
    by (simp add: two loaded n cr2_def w2_def st1 strict_world_def insert_calls_append)
  then show ?thesis by (simp add: batch_size_def)
qed

text \<open>
  The scenario of the specification, run on the loop with a chunk size of 2 (the source
  fixes 1000): three rows, the third refused by the store. Chunk 1 is committed and
  \<^verbatim>\<open>loaded_rows\<close> is 2; the loop stops at chunk 2 with \<^verbatim>\<open>current_batch = 2\<close>.
\<close>

lemma three_rows_chunk_size_two:
  "process_batches_loop 2
     \<lparr>df_columns = [''id''],
      df_rows = [[''id'' \<mapsto> PStr ''7''], [''id'' \<mapsto> PStr ''7''], [''id'' \<mapsto> PStr ''13'']]\<rparr>
     ''t'' 0 0 fresh_record strict_world = (res, cr, w) \<Longrightarrow>
   res = Inl (BatchFailed 2 (StoreRejected ''t'')) \<and> loaded_rows cr = Some 2 \<and>
   current_batch cr = Some 2 \<and> length (contents (db w) ''t'') = 2"
  by (auto simp: process_batches_loop.simps[of _ _ _ 0] process_batches_loop.simps[of _ _ _ 2]
      process_batches_loop.simps[of _ _ _ "Suc (Suc 0)"]
      insert_data_def validate_and_prepare_data_def to_dict_records_def iloc_def
      execute_batches.simps[of _ _ _ _ 0] execute_batches.simps[of _ _ _ _ 2]
      execute_batches.simps[of _ _ _ _ "Suc (Suc 0)"]
      get_table_columns_def strict_world_def strict_store_def sample_store_def sample_schema_def
      commit_def len_def cell_def Let_def)

section \<open>The structure check and the error route\<close>







section \<open>FileProcessor: retry\<close>














text \<open>
  The error route and retry do not meet: \<^verbatim>\<open>_handle_error\<close> stores a failed file in the
  error folder under the date stamp and the file name, \<^verbatim>\<open>_retry_file\<close> looks for it under
  the file name alone. After a failed attempt, retry therefore finds no file, and the
  record stays in \<^verbatim>\<open>ERROR\<close> with its counters set to 0.
\<close>

lemma retry_after_failed_attempt:
  "process_file sample_env (sample_world [[''id'', ''name''], [''x'', ''x'']]) ''/in/a.csv''
     sample_pattern = (cr, w) \<Longrightarrow>
   status cr = ''ERROR'' \<and> file_location cr = ''ERROR'' \<and>
   fs w ''/error/20240101_a.csv'' = Some [[''id'', ''name''], [''x'', ''x'']] \<and>
   retry_source sample_env cr = ''/error/a.csv'' \<and> fs w ''/error/a.csv'' = None \<and>
   fst (retry_failed_files sample_env False [cr] w) =
     [cr\<lparr>current_batch := Some 0, loaded_rows := Some 0\<rparr>]"
  by (auto simp: pipeline_defs validator_defs store_defs loop_unfold sample_defs sample_path
      error_path_def archive_path_def retry_file_def retry_source_def path_join_def)

end
